theory Spec2Isabelle
  imports Complex_Main
begin

text \<open>
  The decision and combat-state layer of the game: the entity base class
  (\<open>AICharacter.ts\<close>), the behaviour tree (\<open>BehaviorTree.ts\<close>), the tactical soldier
  (\<open>Enemy/Soldier.ts\<close>), the boss base class (\<open>Boss/BossBase.ts\<close>) and the configuration
  of the Trainer (\<open>Boss/Trainer.ts\<close>), embedded as functions on records, and the claims
  C1 to C10 of the specification settled on them. A method that mutates \<open>this\<close> is a
  function from the object before the call to the object after it.
\<close>

section \<open>Numbers, vectors and enumerations\<close>

text \<open>
  The source computes with IEEE doubles. The model uses \<^typ>\<open>real\<close>: rounding, NaN and
  the infinities are outside the model. The one infinity the modelled code writes on
  purpose (the initial best distance of \<open>findNearestCover\<close>) is an absent value of an
  option type. A division by zero, which gives an infinity or NaN in the source, gives 0
  in HOL: every theorem below whose statement depends on a quotient has a positive
  denominator.

  A \<open>THREE.Vector3\<close> is a triple of reals. \<open>THREE.Euler\<close> rotations, the mesh, the
  perception record, the patrol route and the identity strings of an entity are not
  modelled: none of the functions below reads them.
\<close>

type_synonym vec3 = "real \<times> real \<times> real"

definition vzero :: vec3 where
  "vzero = (0, 0, 0)"

definition distanceTo :: "vec3 \<Rightarrow> vec3 \<Rightarrow> real" where
  "distanceTo p q =
     (case p of (px, py, pz) \<Rightarrow> case q of (qx, qy, qz) \<Rightarrow>
        sqrt ((px - qx)\<^sup>2 + (py - qy)\<^sup>2 + (pz - qz)\<^sup>2))"

datatype AICharacterType = GRUNT | SOLDIER | HEAVY | BOMBER | BOSS

datatype AIState = IDLE | PATROL | CHASE | ATTACK | RETREAT | COVER | DEAD | STUNNED

record MovementConfig =
  walkSpeed :: real
  runSpeed :: real
  patrolSpeed :: real
  rotationSpeed :: real
  acceleration :: real
  deceleration :: real
  minDistance :: real
  maxDistance :: real
  retreatDistance :: real

definition DEFAULT_MOVEMENT :: MovementConfig where
  "DEFAULT_MOVEMENT =
     \<lparr> walkSpeed = 2.0, runSpeed = 4.0, patrolSpeed = 1.5, rotationSpeed = 5.0,
       acceleration = 10.0, deceleration = 8.0, minDistance = 5.0, maxDistance = 20.0,
       retreatDistance = 0.3 \<rparr>"

text \<open>
  \<open>AIConfig\<close>. Every configuration in the source gives all nine movement fields, so the
  spread \<open>{ ...DEFAULT_MOVEMENT, ...config.movement }\<close> is \<open>config.movement\<close>.
\<close>

record AIConfig =
  cfg_type :: AICharacterType
  cfg_health :: real
  cfg_armor :: real
  cfg_damage :: real
  cfg_movement :: MovementConfig
  cfg_coverSpots :: "vec3 list option"

section \<open>Observers\<close>

text \<open>
  The three callback lists of an entity are observers: the model records each sweep over
  a callback list as one event in a log, together with what a callback reading the
  entity at that moment sees.
\<close>

record observation =
  seen_health :: real
  seen_maxHealth :: real
  seen_alive :: bool
  seen_state :: AIState
  seen_velocity :: vec3

datatype event =
    OnDamage real observation
  | OnDeath observation
  | OnStateChange AIState AIState observation
  | OnPhaseExit nat
  | OnPhaseEnter nat
  | OnPhaseChange nat string
  | OnEnrage
  | OnSpecialAttack string
  | OnDefeat
  | Fired real

section \<open>The entity (AICharacter)\<close>

record AICharacter =
  characterType :: AICharacterType
  position :: vec3
  velocity :: vec3
  health :: real
  maxHealth :: real
  armor :: real
  damage :: real
  state :: AIState
  previousState :: AIState
  isAlive :: bool
  isStunned :: bool
  stunTime :: real
  target :: "vec3 option"
  movementConfig :: MovementConfig
  coverSpots :: "vec3 list"
  currentCoverSpot :: "vec3 option"
  coverTimer :: real
  attackCooldown :: real
  lastAttackTime :: real
  trace :: "event list"

definition observe :: "'a AICharacter_scheme \<Rightarrow> observation" where
  "observe e =
     \<lparr> seen_health = health e, seen_maxHealth = maxHealth e, seen_alive = isAlive e,
       seen_state = state e, seen_velocity = velocity e \<rparr>"

definition emit :: "event \<Rightarrow> 'a AICharacter_scheme \<Rightarrow> 'a AICharacter_scheme" where
  "emit ev e = e\<lparr>trace := trace e @ [ev]\<rparr>"

text \<open>The constructor of \<open>AICharacter\<close> (the fields with initialisers, then the body).\<close>

definition AICharacter_new :: "AIConfig \<Rightarrow> AICharacter" where
  "AICharacter_new config =
     \<lparr> characterType = cfg_type config,
       position = vzero,
       velocity = vzero,
       health = cfg_health config,
       maxHealth = cfg_health config,
       armor = cfg_armor config,
       damage = cfg_damage config,
       state = IDLE,
       previousState = IDLE,
       isAlive = True,
       isStunned = False,
       stunTime = 0,
       target = None,
       movementConfig = cfg_movement config,
       coverSpots = (case cfg_coverSpots config of None \<Rightarrow> [] | Some cs \<Rightarrow> cs),
       currentCoverSpot = None,
       coverTimer = 0,
       attackCooldown = 0,
       lastAttackTime = 0,
       trace = [] \<rparr>"

subsection \<open>State changes\<close>

definition onEnterState :: "AIState \<Rightarrow> 'a AICharacter_scheme \<Rightarrow> 'a AICharacter_scheme" where
  "onEnterState s e =
     (case s of
        PATROL \<Rightarrow> e\<lparr>velocity := vzero\<rparr>
      | COVER \<Rightarrow> e\<lparr>coverTimer := 0\<rparr>
      | _ \<Rightarrow> e)"

definition onExitState :: "AIState \<Rightarrow> 'a AICharacter_scheme \<Rightarrow> 'a AICharacter_scheme" where
  "onExitState s e =
     (case s of
        COVER \<Rightarrow> e\<lparr>currentCoverSpot := None\<rparr>
      | _ \<Rightarrow> e)"

definition setState :: "AIState \<Rightarrow> 'a AICharacter_scheme \<Rightarrow> 'a AICharacter_scheme" where
  "setState newState e =
     (if state e = newState then e
      else
        let oldState = state e;
            e1 = e\<lparr>previousState := oldState, state := newState\<rparr>;
            e2 = onExitState oldState e1;
            e3 = onEnterState newState e2
        in emit (OnStateChange newState oldState (observe e3)) e3)"

definition stop :: "'a AICharacter_scheme \<Rightarrow> 'a AICharacter_scheme" where
  "stop e = e\<lparr>velocity := vzero\<rparr>"

subsection \<open>Cover lookup\<close>

text \<open>
  The loop of \<open>findNearestCover\<close>. The best distance so far starts at \<open>Infinity\<close>,
  which is \<open>None\<close> here: every distance is below it.
\<close>

fun nearestCoverLoop :: "vec3 \<Rightarrow> vec3 list \<Rightarrow> vec3 option \<Rightarrow> real option \<Rightarrow> vec3 option" where
  "nearestCoverLoop pos [] nearest nearestDist = nearest"
| "nearestCoverLoop pos (cover # rest) nearest nearestDist =
     (let dist = distanceTo pos cover
      in if (case nearestDist of None \<Rightarrow> True | Some d \<Rightarrow> dist < d)
         then nearestCoverLoop pos rest (Some cover) (Some dist)
         else nearestCoverLoop pos rest nearest nearestDist)"

definition findNearestCover :: "'a AICharacter_scheme \<Rightarrow> vec3 option" where
  "findNearestCover e =
     (if coverSpots e = [] then None
      else nearestCoverLoop (position e) (coverSpots e) None None)"

subsection \<open>Damage, death, stun\<close>

definition die :: "'a AICharacter_scheme \<Rightarrow> 'a AICharacter_scheme" where
  "die e =
     (let e1 = e\<lparr>isAlive := False, health := 0\<rparr>;
          e2 = setState DEAD e1;
          e3 = stop e2
      in emit (OnDeath (observe e3)) e3)"

text \<open>
  \<open>takeDamage\<close> calls \<open>this.die()\<close>, a method that \<open>BossBase\<close> overrides: the method
  that the call dispatches to is the first argument here. The \<open>source\<close> argument of the
  source is only handed on to the damage callbacks and is left out.
\<close>

definition takeDamageWith ::
  "('a AICharacter_scheme \<Rightarrow> 'a AICharacter_scheme) \<Rightarrow> real \<Rightarrow>
   'a AICharacter_scheme \<Rightarrow> 'a AICharacter_scheme" where
  "takeDamageWith dieMethod amount e =
     (if \<not> isAlive e then e
      else
        let armorDamage = (if armor e > 0 then min (armor e) (amount * 0.5) else 0);
            e1 = (if armor e > 0 then e\<lparr>armor := armor e - armorDamage\<rparr> else e);
            dmg = amount - armorDamage;
            e2 = e1\<lparr>health := health e1 - dmg\<rparr>;
            e3 = emit (OnDamage amount (observe e2)) e2;
            e4 = (if health e3 \<le> 0 then dieMethod e3 else e3)
        in if armor e4 > 0 \<and> characterType e4 = SOLDIER
           then (case findNearestCover e4 of
                   None \<Rightarrow> e4
                 | Some cover \<Rightarrow> setState COVER (e4\<lparr>currentCoverSpot := Some cover\<rparr>))
           else e4)"

definition takeDamage :: "real \<Rightarrow> 'a AICharacter_scheme \<Rightarrow> 'a AICharacter_scheme" where
  "takeDamage amount e = takeDamageWith die amount e"

definition stun :: "real \<Rightarrow> 'a AICharacter_scheme \<Rightarrow> 'a AICharacter_scheme" where
  "stun duration e =
     stop (setState STUNNED (e\<lparr>isStunned := True, stunTime := duration\<rparr>))"

subsection \<open>The tick\<close>

text \<open>
  Behind the two guards of \<open>update\<close> come the perception refresh, the evaluation of the
  behaviour tree with the hooks it calls (\<open>onRetreat\<close>, \<open>onApproachTarget\<close>,
  \<open>onAttack\<close>, \<open>onPatrol\<close>, \<open>moveToward\<close>) and the integration of the velocity. They
  depend on the geometry of the scene and on the wall clock, and every subclass replaces
  them by its own logic. What all of them do to the modelled fields is a sequence of
  calls of \<open>setState\<close> and of writes to the velocity, the position and the time of the
  last attack; none of them writes health, maxHealth, armor or the liveness and stun
  flags. The model takes that sequence as an argument of the tick, so a theorem about
  every such sequence holds for the decisions the source takes.
\<close>

datatype tickStep =
    StepSetState AIState
  | StepSetVelocity vec3
  | StepSetPosition vec3
  | StepSetLastAttackTime real

fun applyStep :: "tickStep \<Rightarrow> 'a AICharacter_scheme \<Rightarrow> 'a AICharacter_scheme" where
  "applyStep (StepSetState s) e = setState s e"
| "applyStep (StepSetVelocity v) e = e\<lparr>velocity := v\<rparr>"
| "applyStep (StepSetPosition p) e = e\<lparr>position := p\<rparr>"
| "applyStep (StepSetLastAttackTime t) e = e\<lparr>lastAttackTime := t\<rparr>"

fun applySteps :: "tickStep list \<Rightarrow> 'a AICharacter_scheme \<Rightarrow> 'a AICharacter_scheme" where
  "applySteps [] e = e"
| "applySteps (st # sts) e = applySteps sts (applyStep st e)"

text \<open>
  The stun branch, which the \<open>update\<close> of every class starts with, word for word. The
  subtraction is exact here and rounded in the source, where the update at which the
  timer reaches 0 can therefore be a later one: after \<open>stun(1)\<close> the tenth \<open>update(0.1)\<close>
  leaves a timer of about 1.4e-16 in the source and of 0 here.
\<close>

definition stunTick :: "real \<Rightarrow> 'a AICharacter_scheme \<Rightarrow> 'a AICharacter_scheme" where
  "stunTick deltaTime e =
     (let e1 = e\<lparr>stunTime := stunTime e - deltaTime\<rparr>
      in if stunTime e1 \<le> 0
         then setState (previousState e1) (e1\<lparr>isStunned := False\<rparr>)
         else e1)"

definition update :: "real \<Rightarrow> tickStep list \<Rightarrow> 'a AICharacter_scheme \<Rightarrow> 'a AICharacter_scheme" where
  "update deltaTime decisions e =
     (if \<not> isAlive e then e
      else if isStunned e then stunTick deltaTime e
      else applySteps decisions e)"

section \<open>The tactical soldier (Soldier)\<close>

text \<open>
  \<open>Math.random()\<close> is an input: \<open>rnd i\<close> is the value that the \<open>i\<close>-th call of
  \<open>Math.random\<close> inside one method call returns. \<open>Date.now()\<close> is an input as well, in
  milliseconds.
\<close>

definition vsub :: "vec3 \<Rightarrow> vec3 \<Rightarrow> vec3" where
  "vsub p q = (case p of (px, py, pz) \<Rightarrow> case q of (qx, qy, qz) \<Rightarrow> (px - qx, py - qy, pz - qz))"

definition vadd :: "vec3 \<Rightarrow> vec3 \<Rightarrow> vec3" where
  "vadd p q = (case p of (px, py, pz) \<Rightarrow> case q of (qx, qy, qz) \<Rightarrow> (px + qx, py + qy, pz + qz))"

definition vlength :: "vec3 \<Rightarrow> real" where
  "vlength p = (case p of (px, py, pz) \<Rightarrow> sqrt (px\<^sup>2 + py\<^sup>2 + pz\<^sup>2))"

text \<open>\<open>Vector3.normalize\<close> divides by \<open>length() || 1\<close>.\<close>

definition normalize :: "vec3 \<Rightarrow> vec3" where
  "normalize p =
     (let l = (if vlength p = 0 then 1 else vlength p)
      in case p of (px, py, pz) \<Rightarrow> (px / l, py / l, pz / l))"

record CoverState =
  coverPosition :: vec3
  quality :: real
  direction :: vec3

record Soldier = AICharacter +
  coverState :: "CoverState option"
  coverSearchTimer :: real
  suppressTimer :: real
  repositionTimer :: real
  grenadeCooldown :: real
  prefersHighCover :: bool
  usesGrenades :: bool
  suppressesEnemy :: bool
  isSuppressing :: bool
  burstCount :: int
  burstSize :: int

definition SOLDIER_CONFIG :: AIConfig where
  "SOLDIER_CONFIG =
     \<lparr> cfg_type = SOLDIER, cfg_health = 120, cfg_armor = 30, cfg_damage = 20,
       cfg_movement =
         \<lparr> walkSpeed = 2.5, runSpeed = 4.0, patrolSpeed = 1.5, rotationSpeed = 8.0,
           acceleration = 12.0, deceleration = 15.0, minDistance = 8.0, maxDistance = 30.0,
           retreatDistance = 0.4 \<rparr>,
       cfg_coverSpots = None \<rparr>"

definition Soldier_new :: "vec3 option \<Rightarrow> vec3 list option \<Rightarrow> Soldier" where
  "Soldier_new pos spots =
     (let s0 = AICharacter.extend (AICharacter_new SOLDIER_CONFIG)
                 (Soldier.fields None 0 0 0 0 True True True False 0 3);
          s1 = (case pos of None \<Rightarrow> s0 | Some p \<Rightarrow> s0\<lparr>position := p\<rparr>)
      in case spots of None \<Rightarrow> s1 | Some cs \<Rightarrow> s1\<lparr>coverSpots := cs\<rparr>)"

definition updateTimers :: "real \<Rightarrow> 'a Soldier_scheme \<Rightarrow> 'a Soldier_scheme" where
  "updateTimers deltaTime s =
     (let s1 = (if coverSearchTimer s > 0
                then s\<lparr>coverSearchTimer := coverSearchTimer s - deltaTime\<rparr> else s);
          s2 = (if suppressTimer s1 > 0
                then s1\<lparr>suppressTimer := suppressTimer s1 - deltaTime\<rparr> else s1);
          s3 = (if repositionTimer s2 > 0
                then s2\<lparr>repositionTimer := repositionTimer s2 - deltaTime\<rparr> else s2)
      in if grenadeCooldown s3 > 0
         then s3\<lparr>grenadeCooldown := grenadeCooldown s3 - deltaTime\<rparr> else s3)"


text \<open>
  \<open>searchForCover\<close> returns inside the first round of its loop, with the first probe
  direction \<open>(1, 0, 0)\<close>, which \<open>multiplyScalar(3)\<close> has scaled in place before it is
  negated.
\<close>

definition searchForCover :: "(nat \<Rightarrow> real) \<Rightarrow> 'a Soldier_scheme \<Rightarrow> CoverState option" where
  "searchForCover rnd s =
     Some \<lparr> coverPosition = vadd (position s) (3, 0, 0),
            quality = rnd 0 * 0.5 + 0.5,
            direction = (- 3, 0, 0) \<rparr>"

text \<open>The loop of \<open>selectBestCover\<close>; the best score starts at \<open>-Infinity\<close>, here \<open>None\<close>.\<close>

fun bestCoverLoop ::
  "(nat \<Rightarrow> real) \<Rightarrow> nat \<Rightarrow> vec3 \<Rightarrow> vec3 \<Rightarrow> real \<Rightarrow> vec3 list \<Rightarrow>
   CoverState option \<Rightarrow> real option \<Rightarrow> CoverState option" where
  "bestCoverLoop rnd i pos tgt maxDist [] bestCover bestScore = bestCover"
| "bestCoverLoop rnd i pos tgt maxDist (coverPos # rest) bestCover bestScore =
     (let distToCover = distanceTo pos coverPos;
          distToEnemy = distanceTo coverPos tgt;
          distScore = 10 - distToCover;
          enemyDistScore = distToEnemy - maxDist;
          q = 0.5 + rnd i * 0.5;
          totalScore = distScore * 0.3 + enemyDistScore * 0.5 + q * 0.2
      in if (case bestScore of None \<Rightarrow> True | Some b \<Rightarrow> totalScore > b)
         then bestCoverLoop rnd (Suc i) pos tgt maxDist rest
                (Some \<lparr> coverPosition = coverPos, quality = q,
                         direction = normalize (vsub tgt coverPos) \<rparr>)
                (Some totalScore)
         else bestCoverLoop rnd (Suc i) pos tgt maxDist rest bestCover bestScore)"

definition selectBestCover :: "(nat \<Rightarrow> real) \<Rightarrow> 'a Soldier_scheme \<Rightarrow> CoverState option" where
  "selectBestCover rnd s =
     (case target s of
        None \<Rightarrow> None
      | Some tgt \<Rightarrow>
          bestCoverLoop rnd 0 (position s) tgt (maxDistance (movementConfig s))
            (coverSpots s) None None)"

definition moveToCover :: "real \<Rightarrow> vec3 \<Rightarrow> 'a Soldier_scheme \<Rightarrow> 'a Soldier_scheme" where
  "moveToCover r coverPos s =
     (case vsub coverPos (position s) of (dx, dy, dz) \<Rightarrow>
        let len = vlength (dx, 0, dz)
        in if len > 0.5
           then (case velocity s of (vx, vy, vz) \<Rightarrow>
                   s\<lparr>velocity := (dx / len * runSpeed (movementConfig s), vy,
                                  dz / len * runSpeed (movementConfig s))\<rparr>)
           else s\<lparr>velocity := vzero, coverTimer := 2.0 + r * 2.0\<rparr>)"

definition findAndMoveToCover :: "(nat \<Rightarrow> real) \<Rightarrow> 'a Soldier_scheme \<Rightarrow> 'a Soldier_scheme" where
  "findAndMoveToCover rnd s =
     (let s1 = setState COVER s;
          found = (if coverSpots s1 = [] then searchForCover rnd s1 else selectBestCover rnd s1);
          used = (if coverSpots s1 = [] then 1
                  else if target s1 = None then 0 else length (coverSpots s1));
          s2 = s1\<lparr>coverState := found\<rparr>
      in case found of
           None \<Rightarrow> s2
         | Some c \<Rightarrow> moveToCover (rnd used) (coverPosition c) s2)"

text \<open>
  \<open>Soldier.performAttack\<close> only writes a line to the console once its guards pass; the
  model records that line as a \<open>Fired\<close> event carrying the damage it prints.
\<close>

definition Soldier_performAttack :: "'a Soldier_scheme \<Rightarrow> 'a Soldier_scheme" where
  "Soldier_performAttack s =
     (case target s of
        None \<Rightarrow> s
      | Some tgt \<Rightarrow>
          if \<not> isAlive s then s
          else if distanceTo (position s) tgt > maxDistance (movementConfig s) then s
          else emit (Fired (damage s)) s)"

definition performBurstFire :: "real \<Rightarrow> 'a Soldier_scheme \<Rightarrow> 'a Soldier_scheme" where
  "performBurstFire now s =
     (let s1 = (if burstCount s \<le> 0 then s\<lparr>burstCount := burstSize s\<rparr> else s)
      in if burstCount s1 > 0
         then
           let s2 = s1\<lparr>attackCooldown := 0.15\<rparr>
           in if now - lastAttackTime s2 > attackCooldown s2 * 1000
              then (let s3 = Soldier_performAttack s2;
                        s4 = s3\<lparr>burstCount := burstCount s3 - 1\<rparr>
                    in s4\<lparr>lastAttackTime := now\<rparr>)
              else s2
         else s1\<lparr>attackCooldown := 0.5\<rparr>)"

text \<open>\<open>Soldier.takeDamage\<close>: the base method first (\<open>die\<close> is not overridden here).\<close>

definition Soldier_takeDamage ::
  "(nat \<Rightarrow> real) \<Rightarrow> real \<Rightarrow> 'a Soldier_scheme \<Rightarrow> 'a Soldier_scheme" where
  "Soldier_takeDamage rnd amount s =
     (let s1 = takeDamage amount s;
          s2 = s1\<lparr>suppressTimer := suppressTimer s1 + 1.0\<rparr>
      in if health s2 < maxHealth s2 * 0.5 \<and> state s2 \<noteq> COVER
         then findAndMoveToCover rnd s2
         else s2)"

text \<open>
  \<open>Soldier.update\<close>: the two guards and the stun branch of the base class, then
  \<open>updateTimers\<close>, then the perception refresh and the tactical logic
  (\<open>executeTacticalAI\<close>, \<open>executePatrol\<close> or \<open>setState(IDLE)\<close>) and the integration of the
  velocity. As for the base class, what the tactical logic of one tick does to the
  modelled fields is an argument of the tick: a sequence of the steps of the base class,
  of calls of \<open>findAndMoveToCover\<close>, \<open>performBurstFire\<close> and \<open>moveToCover\<close>, and of writes
  to the current cover spot, the reposition timer and the grenade cooldown.
\<close>

datatype soldierStep =
    SoldierBaseStep tickStep
  | StepFindAndMoveToCover "nat \<Rightarrow> real"
  | StepPerformBurstFire real
  | StepMoveToCover real vec3
  | StepSetCurrentCoverSpot "vec3 option"
  | StepSetRepositionTimer real
  | StepSetGrenadeCooldown real

fun applySoldierStep :: "soldierStep \<Rightarrow> 'a Soldier_scheme \<Rightarrow> 'a Soldier_scheme" where
  "applySoldierStep (SoldierBaseStep st) s = applyStep st s"
| "applySoldierStep (StepFindAndMoveToCover rnd) s = findAndMoveToCover rnd s"
| "applySoldierStep (StepPerformBurstFire now) s = performBurstFire now s"
| "applySoldierStep (StepMoveToCover r coverPos) s = moveToCover r coverPos s"
| "applySoldierStep (StepSetCurrentCoverSpot c) s = s\<lparr>currentCoverSpot := c\<rparr>"
| "applySoldierStep (StepSetRepositionTimer t) s = s\<lparr>repositionTimer := t\<rparr>"
| "applySoldierStep (StepSetGrenadeCooldown t) s = s\<lparr>grenadeCooldown := t\<rparr>"

fun applySoldierSteps :: "soldierStep list \<Rightarrow> 'a Soldier_scheme \<Rightarrow> 'a Soldier_scheme" where
  "applySoldierSteps [] s = s"
| "applySoldierSteps (st # sts) s = applySoldierSteps sts (applySoldierStep st s)"

definition Soldier_update ::
  "real \<Rightarrow> soldierStep list \<Rightarrow> 'a Soldier_scheme \<Rightarrow> 'a Soldier_scheme" where
  "Soldier_update deltaTime decisions s =
     (if \<not> isAlive s then s
      else if isStunned s then stunTick deltaTime s
      else applySoldierSteps decisions (updateTimers deltaTime s))"

section \<open>The boss (BossBase) and the Trainer's configuration\<close>

text \<open>
  The optional \<open>onEnter\<close> and \<open>onExit\<close> hooks of a phase are closures; a phase records
  whether it has each, and running one is an event of the trace. The callbacks of
  \<open>BossEvents\<close> are events of the trace too.
\<close>

record BossPhaseConfig =
  phaseName :: string
  phaseHealth :: real
  damageMultiplier :: real
  speedMultiplier :: real
  mechanics :: "string list"
  hasOnEnter :: bool
  hasOnExit :: bool

record EnrageEffects =
  enrageDamageMultiplier :: real
  enrageSpeedMultiplier :: real

record BossConfig = AIConfig +
  cfg_phases :: "BossPhaseConfig list"
  cfg_enrageThreshold :: real
  cfg_enrageEffects :: "EnrageEffects option"

record BossBase = AICharacter +
  phases :: "BossPhaseConfig list"
  currentPhaseIndex :: nat
  phaseHealthThresholds :: "real list"
  isEnraged :: bool
  enrageThreshold :: real
  enrageEffects :: EnrageEffects
  specialAttackCooldown :: real
  currentSpecialAttack :: "string option"
  isPerformingSpecial :: bool
  hitCount :: nat

text \<open>
  The two loops of \<open>calculatePhaseThresholds\<close>. The sums and the quotient are exact here
  and rounded in the source.
\<close>

fun totalHealthLoop :: "BossPhaseConfig list \<Rightarrow> real \<Rightarrow> real" where
  "totalHealthLoop [] totalHealth = totalHealth"
| "totalHealthLoop (phase # rest) totalHealth = totalHealthLoop rest (totalHealth + phaseHealth phase)"

fun thresholdLoop :: "BossPhaseConfig list \<Rightarrow> real \<Rightarrow> real \<Rightarrow> real list \<Rightarrow> real list" where
  "thresholdLoop [] totalHealth accumulated out = out"
| "thresholdLoop (phase # rest) totalHealth accumulated out =
     (let accumulated' = accumulated + phaseHealth phase
      in thresholdLoop rest totalHealth accumulated' (out @ [1 - accumulated' / totalHealth]))"

definition calculatePhaseThresholds :: "BossPhaseConfig list \<Rightarrow> real list" where
  "calculatePhaseThresholds ps = thresholdLoop ps (totalHealthLoop ps 0) 0 []"

text \<open>
  The constructor reads \<open>config.phases[0].health\<close>: with an empty phase list that is a
  property of \<open>undefined\<close>, a \<open>TypeError\<close>, and no boss is constructed (\<open>None\<close>).
\<close>

definition BossBase_new :: "BossConfig \<Rightarrow> BossBase option" where
  "BossBase_new config =
     (case cfg_phases config of
        [] \<Rightarrow> None
      | initialPhase # _ \<Rightarrow>
          let initialConfig =
                \<lparr> cfg_type = cfg_type config,
                  cfg_health = phaseHealth initialPhase,
                  cfg_armor = cfg_armor config,
                  cfg_damage = cfg_damage config * damageMultiplier initialPhase,
                  cfg_movement = cfg_movement config,
                  cfg_coverSpots = cfg_coverSpots config \<rparr>;
              base = (AICharacter_new initialConfig)\<lparr>characterType := BOSS\<rparr>
          in Some (AICharacter.extend base
                (BossBase.fields
                   (cfg_phases config)
                   0
                   (calculatePhaseThresholds (cfg_phases config))
                   False
                   (cfg_enrageThreshold config)
                   (case cfg_enrageEffects config of
                      None \<Rightarrow> \<lparr> enrageDamageMultiplier = 1.5, enrageSpeedMultiplier = 1.3 \<rparr>
                    | Some eff \<Rightarrow> eff)
                   0 None False 0)))"

definition advanceToNextPhase :: "'a BossBase_scheme \<Rightarrow> 'a BossBase_scheme" where
  "advanceToNextPhase b =
     (if int (currentPhaseIndex b) \<ge> int (length (phases b)) - 1 then b
      else
        let oldPhase = phases b ! currentPhaseIndex b;
            b1 = (if hasOnExit oldPhase then emit (OnPhaseExit (currentPhaseIndex b)) b else b);
            b2 = b1\<lparr>currentPhaseIndex := currentPhaseIndex b1 + 1\<rparr>;
            newPhase = phases b2 ! currentPhaseIndex b2;
            b3 = b2\<lparr>damage := damage b2 * (damageMultiplier newPhase / damageMultiplier oldPhase)\<rparr>;
            b4 = b3\<lparr>movementConfig := (movementConfig b3)
                    \<lparr>runSpeed := runSpeed (movementConfig b3) *
                       (speedMultiplier newPhase / speedMultiplier oldPhase)\<rparr>\<rparr>;
            b5 = (if hasOnEnter newPhase then emit (OnPhaseEnter (currentPhaseIndex b4)) b4 else b4)
        in emit (OnPhaseChange (currentPhaseIndex b5) (phaseName newPhase)) b5)"

text \<open>
  A read of \<open>phaseHealthThresholds\<close> past its end is \<open>undefined\<close> in the source, and
  \<open>healthPercent <= undefined\<close> is false.
\<close>

definition checkPhaseTransition :: "'a BossBase_scheme \<Rightarrow> 'a BossBase_scheme" where
  "checkPhaseTransition b =
     (if int (currentPhaseIndex b) \<ge> int (length (phases b)) - 1 then b
      else
        let healthPercent = health b / maxHealth b
        in if currentPhaseIndex b < length (phaseHealthThresholds b)
              \<and> healthPercent \<le> phaseHealthThresholds b ! currentPhaseIndex b
           then advanceToNextPhase b else b)"

definition enterEnrage :: "'a BossBase_scheme \<Rightarrow> 'a BossBase_scheme" where
  "enterEnrage b =
     (if isEnraged b then b
      else
        let b1 = b\<lparr>isEnraged := True\<rparr>;
            b2 = b1\<lparr>damage := damage b1 * enrageDamageMultiplier (enrageEffects b1)\<rparr>;
            b3 = b2\<lparr>movementConfig := (movementConfig b2)
                    \<lparr>runSpeed := runSpeed (movementConfig b2) *
                       enrageSpeedMultiplier (enrageEffects b2)\<rparr>\<rparr>
        in emit OnEnrage b3)"

definition checkEnrage :: "'a BossBase_scheme \<Rightarrow> 'a BossBase_scheme" where
  "checkEnrage b =
     (if isEnraged b then b
      else
        let healthPercent = health b / maxHealth b
        in if healthPercent \<le> enrageThreshold b then enterEnrage b else b)"

definition performSpecialAttack :: "string \<Rightarrow> 'a BossBase_scheme \<Rightarrow> 'a BossBase_scheme" where
  "performSpecialAttack attackName b =
     (if isPerformingSpecial b then b
      else emit (OnSpecialAttack attackName)
             (b\<lparr>isPerformingSpecial := True, currentSpecialAttack := Some attackName\<rparr>))"

definition endSpecialAttack :: "'a BossBase_scheme \<Rightarrow> 'a BossBase_scheme" where
  "endSpecialAttack b =
     b\<lparr>isPerformingSpecial := False, currentSpecialAttack := None, specialAttackCooldown := 3.0\<rparr>"

definition BossBase_die :: "'a BossBase_scheme \<Rightarrow> 'a BossBase_scheme" where
  "BossBase_die b = emit OnDefeat (die b)"

definition BossBase_takeDamage :: "real \<Rightarrow> 'a BossBase_scheme \<Rightarrow> 'a BossBase_scheme" where
  "BossBase_takeDamage amount b =
     (if \<not> isAlive b then b
      else
        let b1 = b\<lparr>hitCount := hitCount b + 1\<rparr>;
            b2 = takeDamageWith BossBase_die amount b1;
            b3 = checkPhaseTransition b2
        in checkEnrage b3)"

text \<open>
  \<open>reset\<close> reads \<open>phases[0].damageMultiplier\<close> after it has reset its counters: with an
  empty phase list that is a \<open>TypeError\<close>, and \<open>Inl\<close> carries the boss as the exception
  leaves it.
\<close>

definition reset :: "'a BossBase_scheme \<Rightarrow> 'a BossBase_scheme + 'a BossBase_scheme" where
  "reset b =
     (let b1 = b\<lparr>currentPhaseIndex := 0, isEnraged := False, health := maxHealth b,
                 isPerformingSpecial := False, currentSpecialAttack := None, hitCount := 0,
                 specialAttackCooldown := 0\<rparr>
      in case phases b1 of
           [] \<Rightarrow> Inl b1
         | firstPhase # _ \<Rightarrow>
             let b2 = b1\<lparr>damage := damage b1 / damageMultiplier firstPhase\<rparr>
             in Inr (b2\<lparr>movementConfig := (movementConfig b2)
                     \<lparr>runSpeed := runSpeed (movementConfig b2) / speedMultiplier firstPhase\<rparr>\<rparr>))"

text \<open>
  \<open>BossBase.update\<close>. The test \<open>this.currentSpecialAttack\<close> is false for \<open>null\<close> and
  for the empty string. The empty hooks \<open>updateSpecialAttack\<close> and \<open>executeBossAI\<close> are what
  a concrete boss fills in; as for the base entity they reach the modelled fields through
  the steps of a tick and, for the special attack, through \<open>performSpecialAttack\<close> and
  \<open>endSpecialAttack\<close>.
\<close>

datatype bossStep =
    BaseStep tickStep
  | StepPerformSpecial string
  | StepEndSpecial

fun applyBossStep :: "bossStep \<Rightarrow> 'a BossBase_scheme \<Rightarrow> 'a BossBase_scheme" where
  "applyBossStep (BaseStep st) b = applyStep st b"
| "applyBossStep (StepPerformSpecial n) b = performSpecialAttack n b"
| "applyBossStep StepEndSpecial b = endSpecialAttack b"

fun applyBossSteps :: "bossStep list \<Rightarrow> 'a BossBase_scheme \<Rightarrow> 'a BossBase_scheme" where
  "applyBossSteps [] b = b"
| "applyBossSteps (st # sts) b = applyBossSteps sts (applyBossStep st b)"

definition BossBase_update ::
  "real \<Rightarrow> bossStep list \<Rightarrow> bossStep list \<Rightarrow> 'a BossBase_scheme \<Rightarrow> 'a BossBase_scheme" where
  "BossBase_update deltaTime specialSteps aiSteps b =
     (if \<not> isAlive b then b
      else if isStunned b then stunTick deltaTime b
      else
        let b1 = (if specialAttackCooldown b > 0
                  then b\<lparr>specialAttackCooldown := specialAttackCooldown b - deltaTime\<rparr> else b);
            b2 = (if isPerformingSpecial b1
                     \<and> (case currentSpecialAttack b1 of None \<Rightarrow> False | Some n \<Rightarrow> n \<noteq> [])
                  then applyBossSteps specialSteps b1 else b1)
        in if \<not> isPerformingSpecial b2 then applyBossSteps aiSteps b2 else b2)"

text \<open>
  The Trainer's configuration. The phase names are Chinese strings in the source
  (training mode, combat mode) and are written in ASCII here; the hooks of both phases
  are present.
\<close>

definition TRAINER_PHASES :: "BossPhaseConfig list" where
  "TRAINER_PHASES =
     [ \<lparr> phaseName = ''training'', phaseHealth = 500, damageMultiplier = 0.5,
         speedMultiplier = 0.7,
         mechanics = [''demonstration'', ''duel_invite'', ''teaching''],
         hasOnEnter = True, hasOnExit = True \<rparr>,
       \<lparr> phaseName = ''combat'', phaseHealth = 500, damageMultiplier = 1.0,
         speedMultiplier = 1.0,
         mechanics = [''combo'', ''flashbang'', ''enrage'', ''aggressive''],
         hasOnEnter = True, hasOnExit = True \<rparr> ]"

definition TRAINER_CONFIG :: BossConfig where
  "TRAINER_CONFIG =
     \<lparr> cfg_type = BOSS, cfg_health = 1000, cfg_armor = 50, cfg_damage = 25,
       cfg_movement =
         \<lparr> walkSpeed = 2.0, runSpeed = 4.5, patrolSpeed = 1.5, rotationSpeed = 6.0,
           acceleration = 8.0, deceleration = 10.0, minDistance = 5.0, maxDistance = 25.0,
           retreatDistance = 0.2 \<rparr>,
       cfg_coverSpots = None,
       cfg_phases = TRAINER_PHASES,
       cfg_enrageThreshold = 0.2,
       cfg_enrageEffects = Some \<lparr> enrageDamageMultiplier = 1.5, enrageSpeedMultiplier = 1.3 \<rparr> \<rparr>"

text \<open>\<open>new Trainer(id)\<close> is \<open>super(id, name, TRAINER_CONFIG)\<close> as far as these fields go.\<close>

definition Trainer_new :: "BossBase option" where
  "Trainer_new = BossBase_new TRAINER_CONFIG"

section \<open>The behaviour tree\<close>

text \<open>
  A node is executed against a context that holds a reference to the entity, and the
  actions of the tree mutate the entity through it. \<open>'w\<close> is everything an action can
  read and write (the context and what it refers to); an action returns its status and
  the new \<open>'w\<close>, a condition only reads. The private \<open>lastStatus\<close> of an action node is
  written and never read, and is left out.
\<close>

datatype NodeStatus = RUNNING | SUCCESS | FAILURE

datatype DecoratorType = INVERTER | REPEATER | TIMEOUT | SUCCESS_RATE | FAILURE_RATE

datatype 'w BTNode =
    BTSequence string "'w BTNode list"
  | BTSelector string "'w BTNode list"
  | BTCondition string "'w \<Rightarrow> bool"
  | BTAction string "'w \<Rightarrow> NodeStatus \<times> 'w"
  | BTDecorator string DecoratorType "'w BTNode" "(string \<times> real) list"

fun execute :: "'w BTNode \<Rightarrow> 'w \<Rightarrow> NodeStatus \<times> 'w"
  and executeSequence :: "'w BTNode list \<Rightarrow> 'w \<Rightarrow> NodeStatus \<times> 'w"
  and executeSelector :: "'w BTNode list \<Rightarrow> 'w \<Rightarrow> NodeStatus \<times> 'w" where
  "execute (BTSequence name children) w = executeSequence children w"
| "execute (BTSelector name children) w = executeSelector children w"
| "execute (BTCondition name condition) w = (if condition w then SUCCESS else FAILURE, w)"
| "execute (BTAction name action) w = action w"
| "execute (BTDecorator name decoratorType child params) w =
     (case execute child w of (result, w') \<Rightarrow>
        (case decoratorType of
           INVERTER \<Rightarrow>
             (if result = SUCCESS then FAILURE
              else if result = FAILURE then SUCCESS
              else result)
         | SUCCESS_RATE \<Rightarrow> SUCCESS
         | FAILURE_RATE \<Rightarrow> FAILURE
         | _ \<Rightarrow> result,
         w'))"
| "executeSequence [] w = (SUCCESS, w)"
| "executeSequence (child # rest) w =
     (case execute child w of (result, w') \<Rightarrow>
        if result = FAILURE then (FAILURE, w')
        else if result = RUNNING then (RUNNING, w')
        else executeSequence rest w')"
| "executeSelector [] w = (FAILURE, w)"
| "executeSelector (child # rest) w =
     (case execute child w of (result, w') \<Rightarrow>
        if result = SUCCESS then (SUCCESS, w')
        else if result = RUNNING then (RUNNING, w')
        else executeSelector rest w')"

text \<open>A call-counting stub: an action that counts its executions and reports a fixed status.\<close>

definition countingStub :: "NodeStatus \<Rightarrow> nat BTNode" where
  "countingStub status = BTAction ''stub'' (\<lambda>calls. (status, Suc calls))"

section \<open>Operation sequences and what observers see\<close>

text \<open>The public operations of an entity, and a run of them in order.\<close>

datatype entityOp =
    OpTakeDamage real
  | OpUpdate real "tickStep list"
  | OpStun real
  | OpDie

fun applyOp :: "entityOp \<Rightarrow> 'a AICharacter_scheme \<Rightarrow> 'a AICharacter_scheme" where
  "applyOp (OpTakeDamage amount) e = takeDamage amount e"
| "applyOp (OpUpdate deltaTime decisions) e = update deltaTime decisions e"
| "applyOp (OpStun duration) e = stun duration e"
| "applyOp OpDie e = die e"

fun runOps :: "entityOp list \<Rightarrow> 'a AICharacter_scheme \<Rightarrow> 'a AICharacter_scheme" where
  "runOps [] e = e"
| "runOps (op # ops) e = runOps ops (applyOp op e)"

fun nonNegativeDamage :: "entityOp \<Rightarrow> bool" where
  "nonNegativeDamage (OpTakeDamage amount) = (0 \<le> amount)"
| "nonNegativeDamage _ = True"

fun takeDamages :: "real list \<Rightarrow> 'a AICharacter_scheme \<Rightarrow> 'a AICharacter_scheme" where
  "takeDamages [] e = e"
| "takeDamages (amount # rest) e = takeDamages rest (takeDamage amount e)"

fun updates :: "(real \<times> tickStep list) list \<Rightarrow> 'a AICharacter_scheme \<Rightarrow> 'a AICharacter_scheme" where
  "updates [] e = e"
| "updates ((deltaTime, decisions) # rest) e = updates rest (update deltaTime decisions e)"

text \<open>The health an observer sees inside a callback, where the callback gets to see one.\<close>

fun seenInRange :: "event \<Rightarrow> bool" where
  "seenInRange (OnDamage amount ob) = (0 \<le> seen_health ob \<and> seen_health ob \<le> seen_maxHealth ob)"
| "seenInRange (OnDeath ob) = (0 \<le> seen_health ob \<and> seen_health ob \<le> seen_maxHealth ob)"
| "seenInRange (OnStateChange new old ob) =
     (0 \<le> seen_health ob \<and> seen_health ob \<le> seen_maxHealth ob)"
| "seenInRange _ = True"

fun seenAtMostMax :: "event \<Rightarrow> bool" where
  "seenAtMostMax (OnDamage amount ob) = (seen_health ob \<le> seen_maxHealth ob)"
| "seenAtMostMax ev = seenInRange ev"

fun isDeathEvent :: "event \<Rightarrow> bool" where
  "isDeathEvent (OnDeath ob) = True"
| "isDeathEvent _ = False"

definition deathCallbackRuns :: "'a AICharacter_scheme \<Rightarrow> nat" where
  "deathCallbackRuns e = length (filter isDeathEvent (trace e))"

definition healthInRange :: "'a AICharacter_scheme \<Rightarrow> bool" where
  "healthInRange e = (0 \<le> health e \<and> health e \<le> maxHealth e)"

text \<open>Health in range now, and in every observation of the trace so far.\<close>

abbreviation inRange :: "'a AICharacter_scheme \<Rightarrow> bool" where
  "inRange e \<equiv> healthInRange e \<and> list_all seenAtMostMax (trace e)"

text \<open>
  The two stages of \<open>takeDamage\<close> around the death check, named for the proofs: the hit
  itself up to the damage callbacks, and the cover lookup for the soldier type.
\<close>

definition hitStage :: "real \<Rightarrow> 'a AICharacter_scheme \<Rightarrow> 'a AICharacter_scheme" where
  "hitStage amount e =
     (let armorDamage = (if armor e > 0 then min (armor e) (amount * 0.5) else 0);
          e1 = (if armor e > 0 then e\<lparr>armor := armor e - armorDamage\<rparr> else e);
          dmg = amount - armorDamage;
          e2 = e1\<lparr>health := health e1 - dmg\<rparr>
      in emit (OnDamage amount (observe e2)) e2)"

definition coverStage :: "'a AICharacter_scheme \<Rightarrow> 'a AICharacter_scheme" where
  "coverStage e4 =
     (if armor e4 > 0 \<and> characterType e4 = SOLDIER
      then (case findNearestCover e4 of
              None \<Rightarrow> e4
            | Some cover \<Rightarrow> setState COVER (e4\<lparr>currentCoverSpot := Some cover\<rparr>))
      else e4)"

text \<open>What the armor takes of one hit.\<close>

definition absorbed :: "real \<Rightarrow> 'a AICharacter_scheme \<Rightarrow> real" where
  "absorbed amount e = (if armor e > 0 then min (armor e) (amount * 0.5) else 0)"

text \<open>An entity of the spec's scenario: 100 health, 20 armor.\<close>

definition scenarioConfig :: AIConfig where
  "scenarioConfig =
     \<lparr> cfg_type = GRUNT, cfg_health = 100, cfg_armor = 20, cfg_damage = 10,
       cfg_movement = DEFAULT_MOVEMENT, cfg_coverSpots = None \<rparr>"

text \<open>The same four operations on a boss, with the methods that \<open>BossBase\<close> overrides.\<close>

datatype bossOp =
    BossTakeDamage real
  | BossUpdate real "bossStep list" "bossStep list"
  | BossStun real
  | BossDie

fun applyBossOp :: "bossOp \<Rightarrow> 'a BossBase_scheme \<Rightarrow> 'a BossBase_scheme" where
  "applyBossOp (BossTakeDamage amount) b = BossBase_takeDamage amount b"
| "applyBossOp (BossUpdate deltaTime specialSteps aiSteps) b =
     BossBase_update deltaTime specialSteps aiSteps b"
| "applyBossOp (BossStun duration) b = stun duration b"
| "applyBossOp BossDie b = BossBase_die b"

fun runBossOps :: "bossOp list \<Rightarrow> 'a BossBase_scheme \<Rightarrow> 'a BossBase_scheme" where
  "runBossOps [] b = b"
| "runBossOps (op # ops) b = runBossOps ops (applyBossOp op b)"

text \<open>The four operations on a soldier, with the methods that \<open>Soldier\<close> overrides.\<close>

datatype soldierOp =
    SoldierTakeDamage "nat \<Rightarrow> real" real
  | SoldierUpdate real "soldierStep list"
  | SoldierStun real
  | SoldierDie

fun applySoldierOp :: "soldierOp \<Rightarrow> 'a Soldier_scheme \<Rightarrow> 'a Soldier_scheme" where
  "applySoldierOp (SoldierTakeDamage rnd amount) s = Soldier_takeDamage rnd amount s"
| "applySoldierOp (SoldierUpdate deltaTime decisions) s = Soldier_update deltaTime decisions s"
| "applySoldierOp (SoldierStun duration) s = stun duration s"
| "applySoldierOp SoldierDie s = die s"

fun runSoldierOps :: "soldierOp list \<Rightarrow> 'a Soldier_scheme \<Rightarrow> 'a Soldier_scheme" where
  "runSoldierOps [] s = s"
| "runSoldierOps (op # ops) s = runSoldierOps ops (applySoldierOp op s)"

fun nonNegativeSoldierDamage :: "soldierOp \<Rightarrow> bool" where
  "nonNegativeSoldierDamage (SoldierTakeDamage rnd amount) = (0 \<le> amount)"
| "nonNegativeSoldierDamage _ = True"

fun nonNegativeBossDamage :: "bossOp \<Rightarrow> bool" where
  "nonNegativeBossDamage (BossTakeDamage amount) = (0 \<le> amount)"
| "nonNegativeBossDamage _ = True"



text \<open>\<open>performBurstFire\<close> called once per tick, at the given clock readings in turn.\<close>

fun burstFireAt :: "real list \<Rightarrow> 'a Soldier_scheme \<Rightarrow> 'a Soldier_scheme" where
  "burstFireAt [] s = s"
| "burstFireAt (now # later) s = burstFireAt later (performBurstFire now s)"

text \<open>
  Soldiers of the scenarios: \<open>Soldier.create()\<close>, which passes the origin and an empty
  list of cover spots to the constructor, and one whose target (\<open>setTarget\<close>) stands 10
  units away, inside the 30 units of its weapon range.
\<close>

definition freshSoldier :: Soldier where
  "freshSoldier = Soldier_new (Some (0, 0, 0)) (Some [])"

definition engagedSoldier :: Soldier where
  "engagedSoldier = (Soldier_new (Some (0, 0, 0)) (Some []))\<lparr>target := Some (0, 0, 10)\<rparr>"

text \<open>A soldier that the tactical logic has put into the Chase state.\<close>

definition chasingSoldier :: Soldier where
  "chasingSoldier = setState CHASE freshSoldier"

definition firedCount :: "'a AICharacter_scheme \<Rightarrow> nat" where
  "firedCount e = length (filter (\<lambda>ev. case ev of Fired d \<Rightarrow> True | _ \<Rightarrow> False) (trace e))"

section \<open>What each primitive does to each field\<close>

lemma emit_fields [simp]:
  "health (emit ev e) = health e" "maxHealth (emit ev e) = maxHealth e"
  "armor (emit ev e) = armor e" "isAlive (emit ev e) = isAlive e"
  "isStunned (emit ev e) = isStunned e" "stunTime (emit ev e) = stunTime e"
  "state (emit ev e) = state e" "previousState (emit ev e) = previousState e"
  "velocity (emit ev e) = velocity e" "characterType (emit ev e) = characterType e"
  "coverSpots (emit ev e) = coverSpots e" "position (emit ev e) = position e"
  "target (emit ev e) = target e" "movementConfig (emit ev e) = movementConfig e"
  "damage (emit ev e) = damage e" "lastAttackTime (emit ev e) = lastAttackTime e"
  "trace (emit ev e) = trace e @ [ev]"
  "AICharacter.more (emit ev e) = AICharacter.more e"
  by (simp_all add: emit_def)

lemma onEnterState_fields [simp]:
  "health (onEnterState s e) = health e" "maxHealth (onEnterState s e) = maxHealth e"
  "armor (onEnterState s e) = armor e" "isAlive (onEnterState s e) = isAlive e"
  "isStunned (onEnterState s e) = isStunned e" "stunTime (onEnterState s e) = stunTime e"
  "state (onEnterState s e) = state e" "previousState (onEnterState s e) = previousState e"
  "velocity (onEnterState s e) = (if s = PATROL then vzero else velocity e)"
  "characterType (onEnterState s e) = characterType e"
  "coverSpots (onEnterState s e) = coverSpots e" "position (onEnterState s e) = position e"
  "target (onEnterState s e) = target e" "movementConfig (onEnterState s e) = movementConfig e"
  "damage (onEnterState s e) = damage e" "lastAttackTime (onEnterState s e) = lastAttackTime e"
  "trace (onEnterState s e) = trace e"
  "AICharacter.more (onEnterState s e) = AICharacter.more e"
  by (cases s; simp add: onEnterState_def)+

lemma onExitState_fields [simp]:
  "health (onExitState s e) = health e" "maxHealth (onExitState s e) = maxHealth e"
  "armor (onExitState s e) = armor e" "isAlive (onExitState s e) = isAlive e"
  "isStunned (onExitState s e) = isStunned e" "stunTime (onExitState s e) = stunTime e"
  "state (onExitState s e) = state e" "previousState (onExitState s e) = previousState e"
  "velocity (onExitState s e) = velocity e"
  "characterType (onExitState s e) = characterType e"
  "coverSpots (onExitState s e) = coverSpots e" "position (onExitState s e) = position e"
  "target (onExitState s e) = target e" "movementConfig (onExitState s e) = movementConfig e"
  "damage (onExitState s e) = damage e" "lastAttackTime (onExitState s e) = lastAttackTime e"
  "trace (onExitState s e) = trace e"
  "AICharacter.more (onExitState s e) = AICharacter.more e"
  by (cases s; simp add: onExitState_def)+

lemma setState_fields [simp]:
  "health (setState s e) = health e" "maxHealth (setState s e) = maxHealth e"
  "armor (setState s e) = armor e" "isAlive (setState s e) = isAlive e"
  "isStunned (setState s e) = isStunned e" "stunTime (setState s e) = stunTime e"
  "state (setState s e) = s"
  "previousState (setState s e) = (if state e = s then previousState e else state e)"
  "velocity (setState s e) = (if state e \<noteq> s \<and> s = PATROL then vzero else velocity e)"
  "characterType (setState s e) = characterType e"
  "coverSpots (setState s e) = coverSpots e" "position (setState s e) = position e"
  "target (setState s e) = target e" "movementConfig (setState s e) = movementConfig e"
  "damage (setState s e) = damage e" "lastAttackTime (setState s e) = lastAttackTime e"
  "AICharacter.more (setState s e) = AICharacter.more e"
  by (simp_all add: setState_def Let_def)

lemma setState_trace:
  "trace (setState s e) =
     (if state e = s then trace e
      else trace e @ [OnStateChange s (state e)
             \<lparr> seen_health = health e, seen_maxHealth = maxHealth e, seen_alive = isAlive e,
               seen_state = s,
               seen_velocity = (if s = PATROL then vzero else velocity e) \<rparr>])"
  by (simp add: setState_def Let_def observe_def)

lemma stop_fields [simp]:
  "health (stop e) = health e" "maxHealth (stop e) = maxHealth e"
  "armor (stop e) = armor e" "isAlive (stop e) = isAlive e"
  "isStunned (stop e) = isStunned e" "stunTime (stop e) = stunTime e"
  "state (stop e) = state e" "previousState (stop e) = previousState e"
  "velocity (stop e) = vzero" "characterType (stop e) = characterType e"
  "coverSpots (stop e) = coverSpots e" "position (stop e) = position e"
  "target (stop e) = target e" "movementConfig (stop e) = movementConfig e"
  "damage (stop e) = damage e" "lastAttackTime (stop e) = lastAttackTime e"
  "trace (stop e) = trace e"
  "AICharacter.more (stop e) = AICharacter.more e"
  by (simp_all add: stop_def)

lemma die_fields [simp]:
  "health (die e) = 0" "maxHealth (die e) = maxHealth e"
  "armor (die e) = armor e" "isAlive (die e) = False"
  "isStunned (die e) = isStunned e" "stunTime (die e) = stunTime e"
  "state (die e) = DEAD"
  "velocity (die e) = vzero" "characterType (die e) = characterType e"
  "coverSpots (die e) = coverSpots e" "position (die e) = position e"
  "target (die e) = target e" "movementConfig (die e) = movementConfig e"
  "damage (die e) = damage e" "lastAttackTime (die e) = lastAttackTime e"
  "AICharacter.more (die e) = AICharacter.more e"
  by (simp_all add: die_def Let_def)

lemma die_trace:
  "trace (die e) =
     trace (setState DEAD (e\<lparr>isAlive := False, health := 0\<rparr>)) @
       [OnDeath \<lparr> seen_health = 0, seen_maxHealth = maxHealth e, seen_alive = False,
                  seen_state = DEAD, seen_velocity = vzero \<rparr>]"
  by (simp add: die_def Let_def observe_def)

lemma nearestCoverLoop_keeps: "nearestCoverLoop pos cs (Some n) d \<noteq> None"
proof (induction cs arbitrary: n d)
  case Nil
  show ?case by simp
next
  case (Cons c cs)
  show ?case using Cons.IH [of c "Some (distanceTo pos c)"] Cons.IH [of n d]
    by (simp add: Let_def del: not_None_eq)
qed

lemma findNearestCover_None: "findNearestCover e = None \<longleftrightarrow> coverSpots e = []"
  by (cases "coverSpots e") (simp_all add: findNearestCover_def Let_def nearestCoverLoop_keeps)

section \<open>Decorators\<close>


text \<open>The call count of a stub under each decorator is one, whatever the stub reports.\<close>

lemma decorated_stub_called_once:
  "execute (BTDecorator name SUCCESS_RATE (countingStub status) params) 0 = (SUCCESS, 1)"
  "execute (BTDecorator name FAILURE_RATE (countingStub status) params) 0 = (FAILURE, 1)"
  "snd (execute (BTDecorator name INVERTER (countingStub status) params) 0) = 1"
  by (simp_all add: countingStub_def)

section \<open>Damage arithmetic\<close>

lemma takeDamageWith_alive_fields:
  assumes "isAlive e"
    and dieH: "\<And>x. health (dieM x) = 0" and dieA: "\<And>x. armor (dieM x) = armor x"
  shows "armor (takeDamageWith dieM amount e) = armor e - absorbed amount e"
    and "health (takeDamageWith dieM amount e) = max 0 (health e - (amount - absorbed amount e))"
  using assms(1)
  by (simp_all add: takeDamageWith_def Let_def absorbed_def dieH dieA max_def split: option.splits)

text \<open>
  C4. On a living entity, \<open>takeDamage(amount)\<close> lets the armor take
  \<open>min(armor, amount / 2)\<close> when there is armor (at most half of a non-negative amount,
  and never more than the armor, so the armor does not go below 0) and takes the rest
  from health, which stops at 0. With health 100 and armor 20, \<open>takeDamage(30)\<close> leaves
  armor 5 and health 85.
\<close>

theorem C4_armor_takes_half_health_the_rest:
  assumes "isAlive e"
  shows "armor (takeDamage amount e) = armor e - absorbed amount e
       \<and> health (takeDamage amount e) = max 0 (health e - (amount - absorbed amount e))
       \<and> (0 \<le> amount \<longrightarrow> 0 \<le> absorbed amount e \<and> absorbed amount e \<le> amount * 0.5)
       \<and> (0 \<le> armor e \<longrightarrow> 0 \<le> armor (takeDamage amount e))
       \<and> (health e = 100 \<and> armor e = 20 \<and> amount = 30 \<longrightarrow>
            armor (takeDamage amount e) = 5 \<and> health (takeDamage amount e) = 85)"
proof -
  have a: "armor (takeDamage amount e) = armor e - absorbed amount e"
    and h: "health (takeDamage amount e) = max 0 (health e - (amount - absorbed amount e))"
    unfolding takeDamage_def using takeDamageWith_alive_fields [OF assms, of die] by simp_all
  have half: "0 \<le> amount \<longrightarrow> 0 \<le> absorbed amount e \<and> absorbed amount e \<le> amount * 0.5"
    by (auto simp: absorbed_def min_def)
  have floor: "0 \<le> armor e \<longrightarrow> 0 \<le> armor (takeDamage amount e)"
    by (auto simp: a absorbed_def min_def)
  have scen: "health e = 100 \<and> armor e = 20 \<and> amount = 30 \<longrightarrow>
         armor (takeDamage amount e) = 5 \<and> health (takeDamage amount e) = 85"
    using a h by (auto simp: absorbed_def)
  show ?thesis using a h half floor scen by blast
qed

theorem C4_witness:
  "isAlive (AICharacter_new scenarioConfig)
   \<and> maxHealth (AICharacter_new scenarioConfig) = 100
   \<and> health (AICharacter_new scenarioConfig) = 100
   \<and> armor (AICharacter_new scenarioConfig) = 20
   \<and> absorbed 30 (AICharacter_new scenarioConfig) = 15
   \<and> armor (takeDamage 30 (AICharacter_new scenarioConfig)) = 5
   \<and> health (takeDamage 30 (AICharacter_new scenarioConfig)) = 85"
  using C4_armor_takes_half_health_the_rest [of "AICharacter_new scenarioConfig" 30]
  by (simp add: AICharacter_new_def scenarioConfig_def absorbed_def)

section \<open>Phase thresholds\<close>

lemma totalHealthLoop_sum:
  "totalHealthLoop ps t = t + sum_list (map phaseHealth ps)"
  by (induction ps arbitrary: t) simp_all

lemma thresholdLoop_out:
  "thresholdLoop ps t acc out = out @ thresholdLoop ps t acc []"
proof (induction ps arbitrary: acc out)
  case Nil
  show ?case by simp
next
  case (Cons p ps)
  show ?case
    using Cons.IH [of "acc + phaseHealth p" "out @ [1 - (acc + phaseHealth p) / t]"]
      Cons.IH [of "acc + phaseHealth p" "[1 - (acc + phaseHealth p) / t]"]
    by (simp add: Let_def)
qed

lemma thresholdLoop_Cons:
  "thresholdLoop (p # ps) t acc [] =
     (1 - (acc + phaseHealth p) / t) # thresholdLoop ps t (acc + phaseHealth p) []"
  using thresholdLoop_out [of ps t "acc + phaseHealth p" "[1 - (acc + phaseHealth p) / t]"]
  by (simp add: Let_def)

lemma thresholdLoop_length: "length (thresholdLoop ps t acc []) = length ps"
  by (induction ps arbitrary: acc) (simp_all add: thresholdLoop_Cons del: thresholdLoop.simps(2))

lemma thresholdLoop_below:
  assumes "0 < t" and "\<forall>p \<in> set ps. 0 < phaseHealth p" and "x \<in> set (thresholdLoop ps t acc [])"
  shows "x \<le> 1 - acc / t"
  using assms(2,3)
proof (induction ps arbitrary: acc)
  case Nil
  then show ?case by simp
next
  case (Cons p ps)
  have step: "1 - (acc + phaseHealth p) / t \<le> 1 - acc / t"
    using assms(1) Cons.prems(1) by (simp add: divide_right_mono)
  from Cons.prems(2) consider "x = 1 - (acc + phaseHealth p) / t"
    | "x \<in> set (thresholdLoop ps t (acc + phaseHealth p) [])"
    by (auto simp: thresholdLoop_Cons simp del: thresholdLoop.simps(2))
  then show ?case
  proof cases
    case 1
    then show ?thesis using step by simp
  next
    case 2
    then have "x \<le> 1 - (acc + phaseHealth p) / t"
      using Cons.IH [of "acc + phaseHealth p"] Cons.prems(1) by simp
    then show ?thesis using step by linarith
  qed
qed

lemma thresholdLoop_non_increasing:
  assumes "0 < t" and "\<forall>p \<in> set ps. 0 < phaseHealth p"
  shows "sorted_wrt (\<lambda>a b. b \<le> a) (thresholdLoop ps t acc [])"
  using assms(2)
proof (induction ps arbitrary: acc)
  case Nil
  show ?case by simp
next
  case (Cons p ps)
  have "\<forall>x \<in> set (thresholdLoop ps t (acc + phaseHealth p) []). x \<le> 1 - (acc + phaseHealth p) / t"
    using thresholdLoop_below [OF assms(1), of ps _ "acc + phaseHealth p"] Cons.prems by simp
  then show ?case
    using Cons.IH [of "acc + phaseHealth p"] Cons.prems
    by (simp add: thresholdLoop_Cons del: thresholdLoop.simps(2))
qed

lemma sum_pos_phases:
  "ps \<noteq> [] \<Longrightarrow> \<forall>p \<in> set ps. 0 < phaseHealth p \<Longrightarrow> 0 < sum_list (map phaseHealth ps)"
proof (induction ps)
  case Nil
  then show ?case by simp
next
  case (Cons p ps)
  have "0 \<le> sum_list (map phaseHealth ps)"
    using Cons.prems(2) by (intro sum_list_nonneg) (auto simp: less_imp_le)
  then show ?case using Cons.prems(2) by simp
qed

text \<open>
  C7, in the form that holds of the code. For a phase list with positive health
  budgets, the thresholds \<open>1 - cumulativePhaseHealth / totalHealth\<close> that
  \<open>calculatePhaseThresholds\<close> computes form a monotonically non-increasing sequence over
  the phase indices. (Not more than that is stated: in the doubles of the source two
  neighbouring thresholds can round to the same value.)
\<close>

theorem C7_thresholds_non_increasing:
  assumes "\<forall>p \<in> set ps. 0 < phaseHealth p"
  shows "\<forall>i j. i < j \<and> j < length (calculatePhaseThresholds ps) \<longrightarrow>
           calculatePhaseThresholds ps ! j \<le> calculatePhaseThresholds ps ! i"
proof (cases "ps = []")
  case True
  then show ?thesis by (simp add: calculatePhaseThresholds_def)
next
  case False
  let ?t = "totalHealthLoop ps 0"
  have t: "?t = sum_list (map phaseHealth ps)" by (simp add: totalHealthLoop_sum)
  have pos: "0 < ?t" using sum_pos_phases [OF False assms] t by simp
  have dec: "sorted_wrt (\<lambda>a b. b \<le> a) (calculatePhaseThresholds ps)"
    unfolding calculatePhaseThresholds_def by (rule thresholdLoop_non_increasing [OF pos assms])
  show ?thesis
    using dec by (simp add: sorted_wrt_iff_nth_less)
qed

lemma trainer_thresholds: "calculatePhaseThresholds TRAINER_PHASES = [1 / 2, 0]"
  by (simp add: calculatePhaseThresholds_def TRAINER_PHASES_def)

theorem C7_witness:
  "list_all (\<lambda>p. 0 < phaseHealth p) TRAINER_PHASES
   \<and> calculatePhaseThresholds TRAINER_PHASES = [1 / 2, 0]
   \<and> (0::nat) < 1 \<and> 1 < length (calculatePhaseThresholds TRAINER_PHASES)
   \<and> calculatePhaseThresholds TRAINER_PHASES ! 1 \<le> calculatePhaseThresholds TRAINER_PHASES ! 0"
proof -
  have pos: "\<forall>p \<in> set TRAINER_PHASES. 0 < phaseHealth p"
    by (simp add: TRAINER_PHASES_def)
  have len: "1 < length (calculatePhaseThresholds TRAINER_PHASES)"
    by (simp add: trainer_thresholds)
  have "calculatePhaseThresholds TRAINER_PHASES ! 1 \<le> calculatePhaseThresholds TRAINER_PHASES ! 0"
    using C7_thresholds_non_increasing [OF pos, THEN spec, THEN spec, of 0 1] len by simp
  moreover have "list_all (\<lambda>p. 0 < phaseHealth p) TRAINER_PHASES"
    by (simp add: TRAINER_PHASES_def)
  ultimately show ?thesis using trainer_thresholds len by simp
qed

text \<open>
  The Trainer's two phases of 500 each have the thresholds 1/2 and 0: the sequence is not
  non-decreasing.
\<close>

theorem C7_counterexample:
  "calculatePhaseThresholds TRAINER_PHASES = [1 / 2, 0]
   \<and> \<not> sorted (calculatePhaseThresholds TRAINER_PHASES)"
  by (simp add: calculatePhaseThresholds_def TRAINER_PHASES_def)

section \<open>The boss: what each method does to the phase bookkeeping\<close>

lemma boss_emit_fields [simp]:
  "phases (emit ev b) = phases b" "currentPhaseIndex (emit ev b) = currentPhaseIndex b"
  "phaseHealthThresholds (emit ev b) = phaseHealthThresholds b"
  "isEnraged (emit ev b) = isEnraged b" "enrageThreshold (emit ev b) = enrageThreshold b"
  by (simp_all add: emit_def)

lemma boss_setState_fields [simp]:
  "phases (setState s b) = phases b" "currentPhaseIndex (setState s b) = currentPhaseIndex b"
  "phaseHealthThresholds (setState s b) = phaseHealthThresholds b"
  "isEnraged (setState s b) = isEnraged b" "enrageThreshold (setState s b) = enrageThreshold b"
  by (cases s; cases "state b"; simp add: setState_def Let_def onEnterState_def onExitState_def emit_def)+

lemma boss_stop_fields [simp]:
  "phases (stop b) = phases b" "currentPhaseIndex (stop b) = currentPhaseIndex b"
  "phaseHealthThresholds (stop b) = phaseHealthThresholds b"
  "isEnraged (stop b) = isEnraged b" "enrageThreshold (stop b) = enrageThreshold b"
  by (simp_all add: stop_def)

lemma boss_die_fields [simp]:
  "phases (BossBase_die b) = phases b" "currentPhaseIndex (BossBase_die b) = currentPhaseIndex b"
  "phaseHealthThresholds (BossBase_die b) = phaseHealthThresholds b"
  "isEnraged (BossBase_die b) = isEnraged b" "enrageThreshold (BossBase_die b) = enrageThreshold b"
  "maxHealth (BossBase_die b) = maxHealth b" "health (BossBase_die b) = 0"
  "armor (BossBase_die b) = armor b" "isAlive (BossBase_die b) = False"
  "characterType (BossBase_die b) = characterType b"
  by (simp_all add: BossBase_die_def die_def Let_def)


lemma boss_takeDamageWith_fields [simp]:
  "phases (takeDamageWith BossBase_die amount b) = phases b"
  "currentPhaseIndex (takeDamageWith BossBase_die amount b) = currentPhaseIndex b"
  "phaseHealthThresholds (takeDamageWith BossBase_die amount b) = phaseHealthThresholds b"
  "isEnraged (takeDamageWith BossBase_die amount b) = isEnraged b"
  "enrageThreshold (takeDamageWith BossBase_die amount b) = enrageThreshold b"
  "maxHealth (takeDamageWith BossBase_die amount b) = maxHealth b"
  by (simp_all add: takeDamageWith_def Let_def split: option.splits)

lemma advanceToNextPhase_fields [simp]:
  "phases (advanceToNextPhase b) = phases b"
  "phaseHealthThresholds (advanceToNextPhase b) = phaseHealthThresholds b"
  "isEnraged (advanceToNextPhase b) = isEnraged b"
  "enrageThreshold (advanceToNextPhase b) = enrageThreshold b"
  "maxHealth (advanceToNextPhase b) = maxHealth b"
  "health (advanceToNextPhase b) = health b"
  "isAlive (advanceToNextPhase b) = isAlive b"
  by (simp_all add: advanceToNextPhase_def Let_def)

lemma advanceToNextPhase_index:
  "currentPhaseIndex (advanceToNextPhase b) =
     (if currentPhaseIndex b + 1 < length (phases b) then currentPhaseIndex b + 1
      else currentPhaseIndex b)"
  by (auto simp: advanceToNextPhase_def Let_def)

lemma checkPhaseTransition_fields [simp]:
  "phases (checkPhaseTransition b) = phases b"
  "phaseHealthThresholds (checkPhaseTransition b) = phaseHealthThresholds b"
  "isEnraged (checkPhaseTransition b) = isEnraged b"
  "enrageThreshold (checkPhaseTransition b) = enrageThreshold b"
  "maxHealth (checkPhaseTransition b) = maxHealth b"
  "health (checkPhaseTransition b) = health b"
  "isAlive (checkPhaseTransition b) = isAlive b"
  by (simp_all add: checkPhaseTransition_def Let_def)

lemma checkPhaseTransition_index:
  "currentPhaseIndex (checkPhaseTransition b) =
     (if currentPhaseIndex b + 1 < length (phases b)
         \<and> currentPhaseIndex b < length (phaseHealthThresholds b)
         \<and> health b / maxHealth b \<le> phaseHealthThresholds b ! currentPhaseIndex b
      then currentPhaseIndex b + 1 else currentPhaseIndex b)"
  by (auto simp: checkPhaseTransition_def Let_def advanceToNextPhase_index)

lemma enterEnrage_fields [simp]:
  "phases (enterEnrage b) = phases b"
  "currentPhaseIndex (enterEnrage b) = currentPhaseIndex b"
  "phaseHealthThresholds (enterEnrage b) = phaseHealthThresholds b"
  "enrageThreshold (enterEnrage b) = enrageThreshold b"
  "maxHealth (enterEnrage b) = maxHealth b"
  "health (enterEnrage b) = health b"
  "isAlive (enterEnrage b) = isAlive b"
  "isEnraged (enterEnrage b) = True"
  by (simp_all add: enterEnrage_def Let_def)

lemma checkEnrage_fields [simp]:
  "phases (checkEnrage b) = phases b"
  "currentPhaseIndex (checkEnrage b) = currentPhaseIndex b"
  "phaseHealthThresholds (checkEnrage b) = phaseHealthThresholds b"
  "enrageThreshold (checkEnrage b) = enrageThreshold b"
  "maxHealth (checkEnrage b) = maxHealth b"
  "health (checkEnrage b) = health b"
  "isAlive (checkEnrage b) = isAlive b"
  by (simp_all add: checkEnrage_def Let_def)


lemma BossBase_takeDamage_fields [simp]:
  "phases (BossBase_takeDamage amount b) = phases b"
  "phaseHealthThresholds (BossBase_takeDamage amount b) = phaseHealthThresholds b"
  "enrageThreshold (BossBase_takeDamage amount b) = enrageThreshold b"
  "maxHealth (BossBase_takeDamage amount b) = maxHealth b"
  by (simp_all add: BossBase_takeDamage_def Let_def)

lemma boss_stun_fields [simp]:
  "phases (stun d b) = phases b" "currentPhaseIndex (stun d b) = currentPhaseIndex b"
  "phaseHealthThresholds (stun d b) = phaseHealthThresholds b"
  "enrageThreshold (stun d b) = enrageThreshold b" "maxHealth (stun d b) = maxHealth b"
  by (simp_all add: stun_def)

lemma boss_stunTick_fields [simp]:
  "phases (stunTick d b) = phases b" "currentPhaseIndex (stunTick d b) = currentPhaseIndex b"
  "phaseHealthThresholds (stunTick d b) = phaseHealthThresholds b"
  "enrageThreshold (stunTick d b) = enrageThreshold b" "maxHealth (stunTick d b) = maxHealth b"
  by (simp_all add: stunTick_def Let_def)

lemma boss_applyStep_fields [simp]:
  "phases (applyStep st b) = phases b" "currentPhaseIndex (applyStep st b) = currentPhaseIndex b"
  "phaseHealthThresholds (applyStep st b) = phaseHealthThresholds b"
  "enrageThreshold (applyStep st b) = enrageThreshold b" "maxHealth (applyStep st b) = maxHealth b"
  by (cases st; simp)+

lemma boss_applyBossStep_fields [simp]:
  "phases (applyBossStep st b) = phases b"
  "currentPhaseIndex (applyBossStep st b) = currentPhaseIndex b"
  "phaseHealthThresholds (applyBossStep st b) = phaseHealthThresholds b"
  "enrageThreshold (applyBossStep st b) = enrageThreshold b"
  "maxHealth (applyBossStep st b) = maxHealth b"
  by (cases st; simp add: performSpecialAttack_def endSpecialAttack_def)+

lemma boss_applyBossSteps_fields [simp]:
  "phases (applyBossSteps sts b) = phases b"
  "currentPhaseIndex (applyBossSteps sts b) = currentPhaseIndex b"
  "phaseHealthThresholds (applyBossSteps sts b) = phaseHealthThresholds b"
  "enrageThreshold (applyBossSteps sts b) = enrageThreshold b"
  "maxHealth (applyBossSteps sts b) = maxHealth b"
  by (induction sts arbitrary: b; simp)+

lemma BossBase_update_fields [simp]:
  "phases (BossBase_update d sp ai b) = phases b"
  "currentPhaseIndex (BossBase_update d sp ai b) = currentPhaseIndex b"
  "phaseHealthThresholds (BossBase_update d sp ai b) = phaseHealthThresholds b"
  "enrageThreshold (BossBase_update d sp ai b) = enrageThreshold b"
  "maxHealth (BossBase_update d sp ai b) = maxHealth b"
  by (simp_all add: BossBase_update_def Let_def)

lemma applyBossOp_fields [simp]:
  "phases (applyBossOp op b) = phases b"
  "phaseHealthThresholds (applyBossOp op b) = phaseHealthThresholds b"
  "enrageThreshold (applyBossOp op b) = enrageThreshold b"
  "maxHealth (applyBossOp op b) = maxHealth b"
  by (cases op; simp)+

lemma runBossOps_fields [simp]:
  "phases (runBossOps ops b) = phases b"
  "phaseHealthThresholds (runBossOps ops b) = phaseHealthThresholds b"
  "enrageThreshold (runBossOps ops b) = enrageThreshold b"
  "maxHealth (runBossOps ops b) = maxHealth b"
  by (induction ops arbitrary: b; simp)+

lemma BossBase_takeDamage_index:
  "currentPhaseIndex (BossBase_takeDamage amount b) =
     (if isAlive b then currentPhaseIndex (checkPhaseTransition (takeDamageWith BossBase_die amount (b\<lparr>hitCount := hitCount b + 1\<rparr>)))
      else currentPhaseIndex b)"
  by (simp add: BossBase_takeDamage_def Let_def)

lemma BossBase_takeDamage_health:
  "health (BossBase_takeDamage amount b) =
     (if isAlive b then health (takeDamageWith BossBase_die amount (b\<lparr>hitCount := hitCount b + 1\<rparr>))
      else health b)"
  by (simp add: BossBase_takeDamage_def Let_def)

lemma BossBase_takeDamage_index_step:
  "currentPhaseIndex b \<le> currentPhaseIndex (BossBase_takeDamage amount b)
   \<and> currentPhaseIndex (BossBase_takeDamage amount b) \<le> currentPhaseIndex b + 1"
  by (simp add: BossBase_takeDamage_index checkPhaseTransition_index)

lemma applyBossOp_index_mono:
  "currentPhaseIndex b \<le> currentPhaseIndex (applyBossOp op b)"
  by (cases op) (simp_all add: BossBase_takeDamage_index_step)

lemma runBossOps_index_mono:
  "currentPhaseIndex b \<le> currentPhaseIndex (runBossOps ops b)"
proof (induction ops arbitrary: b)
  case Nil
  show ?case by simp
next
  case (Cons op ops)
  show ?case using applyBossOp_index_mono [of b op] Cons.IH [of "applyBossOp op b"]
    by simp
qed

lemma BossBase_new_fields:
  assumes "BossBase_new config = Some b"
  shows "cfg_phases config \<noteq> []"
    and "health b = phaseHealth (hd (cfg_phases config))"
    and "maxHealth b = phaseHealth (hd (cfg_phases config))"
    and "phases b = cfg_phases config"
    and "phaseHealthThresholds b = calculatePhaseThresholds (cfg_phases config)"
    and "currentPhaseIndex b = 0"
    and "isAlive b" and "\<not> isEnraged b"
    and "enrageThreshold b = cfg_enrageThreshold config"
    and "characterType b = BOSS"
    and "armor b = cfg_armor config"
  using assms
  by (auto simp: BossBase_new_def Let_def AICharacter_new_def AICharacter.defs BossBase.defs
      split: list.splits)

section \<open>The boss's maximum health\<close>


lemma Trainer_constructed: "\<exists>t. BossBase_new TRAINER_CONFIG = Some t"
  by (simp add: BossBase_new_def TRAINER_CONFIG_def TRAINER_PHASES_def Let_def)


section \<open>Phase advance of a two-phase boss\<close>

lemma hitCount_update_fields [simp]:
  "phases (b\<lparr>hitCount := n\<rparr>) = phases b"
  "currentPhaseIndex (b\<lparr>hitCount := n\<rparr>) = currentPhaseIndex b"
  "phaseHealthThresholds (b\<lparr>hitCount := n\<rparr>) = phaseHealthThresholds b"
  by simp_all

text \<open>
  C2. A boss constructed with two phases of 500 health each starts in phase 0 with
  maxHealth 500 and the thresholds 1/2 and 0. Whatever happened to it before, a
  \<open>takeDamage\<close> on the living boss in phase 0 leaves it in phase 1 exactly when the
  health after the hit is at or below 50% of maxHealth, and in phase 0 otherwise. On every
  boss, one \<open>takeDamage\<close> call moves the phase index up by at most one and never down,
  and no \<open>takeDamage\<close>, \<open>update\<close>, \<open>stun\<close> or \<open>die\<close> call ever lowers it.
\<close>

theorem C2_phase_advances_at_half_health:
  assumes "BossBase_new config = Some b0"
    and "map phaseHealth (cfg_phases config) = [500, 500]"
  shows "maxHealth b0 = 500 \<and> currentPhaseIndex b0 = 0
       \<and> phaseHealthThresholds b0 = [1 / 2, 0]
       \<and> (\<forall>ops amount.
             isAlive (runBossOps ops b0) \<and> currentPhaseIndex (runBossOps ops b0) = 0 \<longrightarrow>
               currentPhaseIndex (BossBase_takeDamage amount (runBossOps ops b0)) =
                 (if health (BossBase_takeDamage amount (runBossOps ops b0))
                       \<le> 0.5 * maxHealth (BossBase_takeDamage amount (runBossOps ops b0))
                  then 1 else 0))
       \<and> (\<forall>b amount. currentPhaseIndex b \<le> currentPhaseIndex (BossBase_takeDamage amount b)
             \<and> currentPhaseIndex (BossBase_takeDamage amount b) \<le> currentPhaseIndex b + 1)
       \<and> (\<forall>ops more. currentPhaseIndex (runBossOps ops b0)
             \<le> currentPhaseIndex (runBossOps more (runBossOps ops b0)))"
proof -
  note f = BossBase_new_fields [OF assms(1)]
  obtain p1 p2 where ps: "cfg_phases config = [p1, p2]"
    and h1: "phaseHealth p1 = 500" and h2: "phaseHealth p2 = 500"
    using assms(2) by (auto simp: map_eq_Cons_conv)
  have m: "maxHealth b0 = 500" using f(3) ps h1 by simp
  have th: "phaseHealthThresholds b0 = [1 / 2, 0]"
    using f(5) ps h1 h2 by (simp add: calculatePhaseThresholds_def)
  have len: "length (phases b0) = 2" using f(4) ps by simp
  have adv: "currentPhaseIndex (BossBase_takeDamage amount (runBossOps ops b0)) =
        (if health (BossBase_takeDamage amount (runBossOps ops b0))
              \<le> 0.5 * maxHealth (BossBase_takeDamage amount (runBossOps ops b0))
         then 1 else 0)"
    if "isAlive (runBossOps ops b0)" and "currentPhaseIndex (runBossOps ops b0) = 0"
    for ops amount
    using that
    by (simp add: BossBase_takeDamage_index BossBase_takeDamage_health
        checkPhaseTransition_index th len m)
  show ?thesis
    using m f(6) th adv BossBase_takeDamage_index_step runBossOps_index_mono by blast
qed

text \<open>Only \<open>reset\<close> writes the phase index back to 0.\<close>

lemma reset_phase_index:
  "(case reset b of Inl b' \<Rightarrow> currentPhaseIndex b' | Inr b' \<Rightarrow> currentPhaseIndex b') = 0"
  by (simp add: reset_def Let_def split: list.splits)

lemma Trainer_two_phases: "map phaseHealth (cfg_phases TRAINER_CONFIG) = [500, 500]"
  by (simp add: TRAINER_CONFIG_def TRAINER_PHASES_def)

lemma boss_takeDamage_health_alive:
  "isAlive b \<Longrightarrow> health (BossBase_takeDamage amount b) =
      max 0 (health b - (amount - absorbed amount b))"
  using takeDamageWith_alive_fields(2) [of "b\<lparr>hitCount := hitCount b + 1\<rparr>" BossBase_die amount]
  by (simp add: BossBase_takeDamage_health absorbed_def)

theorem C2_witness:
  "map phaseHealth (cfg_phases TRAINER_CONFIG) = [500, 500]
   \<and> map_option maxHealth Trainer_new = Some 500
   \<and> map_option currentPhaseIndex Trainer_new = Some 0
   \<and> map_option (\<lambda>t. health (BossBase_takeDamage 299 t)) Trainer_new = Some 251
   \<and> map_option (\<lambda>t. currentPhaseIndex (BossBase_takeDamage 299 t)) Trainer_new = Some 0
   \<and> map_option (\<lambda>t. health (BossBase_takeDamage 300 t)) Trainer_new = Some 250
   \<and> map_option (\<lambda>t. currentPhaseIndex (BossBase_takeDamage 300 t)) Trainer_new = Some 1
   \<and> map_option (\<lambda>t. currentPhaseIndex (BossBase_takeDamage 1000 t)) Trainer_new = Some 1
   \<and> map_option (\<lambda>t. currentPhaseIndex (runBossOps [BossStun 1] (BossBase_takeDamage 300 t)))
        Trainer_new \<noteq> Some 0"
proof -
  obtain t where t: "BossBase_new TRAINER_CONFIG = Some t"
    using Trainer_constructed by blast
  note f = BossBase_new_fields [OF t]
  note c2 = C2_phase_advances_at_half_health [OF t Trainer_two_phases]
  have alive: "isAlive (runBossOps [] t)" and idx: "currentPhaseIndex (runBossOps [] t) = 0"
    using f by simp_all
  have h: "health t = 500" and a: "armor t = 50"
    using f by (simp_all add: TRAINER_CONFIG_def TRAINER_PHASES_def)
  have h299: "health (BossBase_takeDamage 299 t) = 251"
    and h300: "health (BossBase_takeDamage 300 t) = 250"
    and h1000: "health (BossBase_takeDamage 1000 t) = 0"
    using f(7) by (simp_all add: boss_takeDamage_health_alive h a absorbed_def)
  have step: "currentPhaseIndex (BossBase_takeDamage amount t) =
        (if health (BossBase_takeDamage amount t) \<le> 0.5 * maxHealth (BossBase_takeDamage amount t)
         then 1 else 0)" for amount
    using c2 alive idx by (metis runBossOps.simps(1))
  have mx: "maxHealth t = 500" using c2 by blast
  have i299: "currentPhaseIndex (BossBase_takeDamage 299 t) = 0"
    and i300: "currentPhaseIndex (BossBase_takeDamage 300 t) = 1"
    and i1000: "currentPhaseIndex (BossBase_takeDamage 1000 t) = 1"
    by (simp_all add: step h299 h300 h1000 mx)
  have mono: "currentPhaseIndex (runBossOps [BossTakeDamage 300] t)
        \<le> currentPhaseIndex (runBossOps [BossStun 1] (runBossOps [BossTakeDamage 300] t))"
    using c2 by blast
  then have later: "currentPhaseIndex (runBossOps [BossStun 1] (BossBase_takeDamage 300 t)) \<noteq> 0"
    using i300 by simp
  have tn: "Trainer_new = Some t" by (simp add: Trainer_new_def t)
  show ?thesis
    unfolding tn using Trainer_two_phases mx f(6) h299 h300 i299 i300 i1000 later by simp
qed

section \<open>The stages of a hit\<close>

lemma takeDamageWith_stages:
  assumes "isAlive e"
  shows "takeDamageWith dieM amount e =
           coverStage (if health (hitStage amount e) \<le> 0 then dieM (hitStage amount e)
                       else hitStage amount e)"
  unfolding takeDamageWith_def hitStage_def coverStage_def Let_def
  by (simp only: assms not_True_eq_False if_False)

lemma takeDamageWith_dead: "\<not> isAlive e \<Longrightarrow> takeDamageWith dieM amount e = e"
  by (simp add: takeDamageWith_def)

lemma hitStage_fields [simp]:
  "health (hitStage amount e) = health e - (amount - absorbed amount e)"
  "armor (hitStage amount e) = armor e - absorbed amount e"
  "maxHealth (hitStage amount e) = maxHealth e" "isAlive (hitStage amount e) = isAlive e"
  "isStunned (hitStage amount e) = isStunned e" "stunTime (hitStage amount e) = stunTime e"
  "state (hitStage amount e) = state e" "previousState (hitStage amount e) = previousState e"
  "velocity (hitStage amount e) = velocity e" "characterType (hitStage amount e) = characterType e"
  "coverSpots (hitStage amount e) = coverSpots e" "position (hitStage amount e) = position e"
  "target (hitStage amount e) = target e" "movementConfig (hitStage amount e) = movementConfig e"
  "AICharacter.more (hitStage amount e) = AICharacter.more e"
  by (simp_all add: hitStage_def Let_def absorbed_def)

lemma hitStage_trace:
  "trace (hitStage amount e) =
     trace e @ [OnDamage amount
       \<lparr> seen_health = health e - (amount - absorbed amount e), seen_maxHealth = maxHealth e,
         seen_alive = isAlive e, seen_state = state e, seen_velocity = velocity e \<rparr>]"
  by (simp add: hitStage_def Let_def absorbed_def observe_def)

lemma coverStage_fields [simp]:
  "health (coverStage e) = health e" "armor (coverStage e) = armor e"
  "maxHealth (coverStage e) = maxHealth e" "isAlive (coverStage e) = isAlive e"
  "isStunned (coverStage e) = isStunned e" "stunTime (coverStage e) = stunTime e"
  "characterType (coverStage e) = characterType e"
  "coverSpots (coverStage e) = coverSpots e" "position (coverStage e) = position e"
  "target (coverStage e) = target e" "movementConfig (coverStage e) = movementConfig e"
  "AICharacter.more (coverStage e) = AICharacter.more e"
  by (simp_all add: coverStage_def split: option.splits)

lemma coverStage_state:
  "state (coverStage e) =
     (if armor e > 0 \<and> characterType e = SOLDIER \<and> coverSpots e \<noteq> [] then COVER else state e)"
  using findNearestCover_None [of e]
  by (auto simp: coverStage_def split: option.splits)

lemma coverStage_trace:
  "trace (coverStage e) =
     (if armor e > 0 \<and> characterType e = SOLDIER \<and> coverSpots e \<noteq> [] \<and> state e \<noteq> COVER
      then trace e @ [OnStateChange COVER (state e)
             \<lparr> seen_health = health e, seen_maxHealth = maxHealth e, seen_alive = isAlive e,
               seen_state = COVER, seen_velocity = velocity e \<rparr>]
      else trace e)"
  using findNearestCover_None [of e]
  by (auto simp: coverStage_def setState_trace split: option.splits)

lemma coverStage_not_soldier: "characterType e \<noteq> SOLDIER \<Longrightarrow> coverStage e = e"
  by (simp add: coverStage_def)

section \<open>Health stays in range\<close>

lemma seenAtMostMax_setState:
  assumes "list_all seenAtMostMax (trace e)" and "healthInRange e"
  shows "list_all seenAtMostMax (trace (setState s e))"
  using assms by (simp add: setState_trace healthInRange_def)

lemma healthInRange_setState [simp]: "healthInRange (setState s e) = healthInRange e"
  by (simp add: healthInRange_def)

lemma die_keeps_range:
  assumes "list_all seenAtMostMax (trace e)" and "0 \<le> maxHealth e"
  shows "healthInRange (die e)" and "list_all seenAtMostMax (trace (die e))"
  using assms by (simp_all add: healthInRange_def die_trace setState_trace)

lemma coverStage_keeps_range:
  assumes "list_all seenAtMostMax (trace e)" and "healthInRange e"
  shows "healthInRange (coverStage e) \<and> list_all seenAtMostMax (trace (coverStage e))"
  using assms by (simp add: healthInRange_def coverStage_trace)

lemma takeDamage_keeps_range:
  assumes "list_all seenAtMostMax (trace e)" and "healthInRange e" and "0 \<le> amount"
  shows "healthInRange (takeDamage amount e) \<and> list_all seenAtMostMax (trace (takeDamage amount e))"
proof (cases "isAlive e")
  case False
  then show ?thesis using assms by (simp add: takeDamage_def takeDamageWith_dead)
next
  case True
  let ?h = "hitStage amount e"
  have ab: "absorbed amount e \<le> amount" using assms(3) by (auto simp: absorbed_def min_def)
  have ht: "list_all seenAtMostMax (trace ?h)" and hm: "0 \<le> maxHealth ?h"
    and hh: "health ?h \<le> maxHealth ?h"
    using assms(1,2) ab by (simp_all add: hitStage_trace healthInRange_def)
  have mid: "healthInRange (if health ?h \<le> 0 then die ?h else ?h)
      \<and> list_all seenAtMostMax (trace (if health ?h \<le> 0 then die ?h else ?h))"
    using die_keeps_range [OF ht hm] ht hh by (simp add: healthInRange_def)
  show ?thesis
    unfolding takeDamage_def takeDamageWith_stages [OF True]
    using coverStage_keeps_range mid by blast
qed

lemma stun_keeps_range:
  assumes "list_all seenAtMostMax (trace e)" and "healthInRange e"
  shows "healthInRange (stun d e) \<and> list_all seenAtMostMax (trace (stun d e))"
  using assms seenAtMostMax_setState [of "e\<lparr>isStunned := True, stunTime := d\<rparr>" STUNNED]
  by (simp add: stun_def healthInRange_def)

lemma applyStep_keeps_range:
  assumes "list_all seenAtMostMax (trace e)" and "healthInRange e"
  shows "healthInRange (applyStep st e) \<and> list_all seenAtMostMax (trace (applyStep st e))"
  using assms seenAtMostMax_setState [of e]
  by (cases st) (simp_all add: healthInRange_def)

lemma applySteps_keeps_range:
  assumes "list_all seenAtMostMax (trace e)" and "healthInRange e"
  shows "healthInRange (applySteps sts e) \<and> list_all seenAtMostMax (trace (applySteps sts e))"
  using assms
proof (induction sts arbitrary: e)
  case Nil
  then show ?case by simp
next
  case (Cons st sts)
  then show ?case using applyStep_keeps_range [of e st] by simp
qed

lemma stunTick_keeps_range:
  assumes "list_all seenAtMostMax (trace e)" and "healthInRange e"
  shows "healthInRange (stunTick d e) \<and> list_all seenAtMostMax (trace (stunTick d e))"
  using assms
    seenAtMostMax_setState [of "e\<lparr>stunTime := stunTime e - d, isStunned := False\<rparr>" "previousState e"]
  by (simp add: stunTick_def Let_def healthInRange_def)

lemma update_keeps_range:
  assumes "list_all seenAtMostMax (trace e)" and "healthInRange e"
  shows "healthInRange (update d sts e) \<and> list_all seenAtMostMax (trace (update d sts e))"
  using assms applySteps_keeps_range [of e sts] stunTick_keeps_range [of e d]
  by (simp add: update_def)

lemma applyOp_keeps_range:
  assumes "list_all seenAtMostMax (trace e)" and "healthInRange e" and "nonNegativeDamage op"
  shows "healthInRange (applyOp op e) \<and> list_all seenAtMostMax (trace (applyOp op e))"
proof (cases op)
  case (OpTakeDamage amount)
  then show ?thesis using assms takeDamage_keeps_range [of e amount] by simp
next
  case (OpUpdate d sts)
  then show ?thesis using assms update_keeps_range [of e d sts] by simp
next
  case (OpStun d)
  then show ?thesis using assms stun_keeps_range [of e d] by simp
next
  case OpDie
  then show ?thesis using assms die_keeps_range [of e] by (simp add: healthInRange_def)
qed

lemma runOps_keeps_range:
  assumes "list_all seenAtMostMax (trace e)" and "healthInRange e"
    and "\<forall>op \<in> set ops. nonNegativeDamage op"
  shows "healthInRange (runOps ops e) \<and> list_all seenAtMostMax (trace (runOps ops e))"
  using assms
proof (induction ops arbitrary: e)
  case Nil
  then show ?case by simp
next
  case (Cons op ops)
  have "healthInRange (applyOp op e) \<and> list_all seenAtMostMax (trace (applyOp op e))"
    using applyOp_keeps_range [of e op] Cons.prems by simp
  then show ?case using Cons.IH [of "applyOp op e"] Cons.prems by simp
qed

lemma scenario_fields:
  "health (AICharacter_new scenarioConfig) = 100" "maxHealth (AICharacter_new scenarioConfig) = 100"
  "armor (AICharacter_new scenarioConfig) = 20" "isAlive (AICharacter_new scenarioConfig)"
  "state (AICharacter_new scenarioConfig) = IDLE" "velocity (AICharacter_new scenarioConfig) = vzero"
  "trace (AICharacter_new scenarioConfig) = []"
  "characterType (AICharacter_new scenarioConfig) = GRUNT"
  "isStunned (AICharacter_new scenarioConfig) = False"
  by (simp_all add: AICharacter_new_def scenarioConfig_def vzero_def)

lemma takeDamage_not_soldier:
  assumes "isAlive e" and "characterType e \<noteq> SOLDIER"
  shows "takeDamage amount e =
           (if health (hitStage amount e) \<le> 0 then die (hitStage amount e) else hitStage amount e)"
  unfolding takeDamage_def takeDamageWith_stages [OF assms(1)]
  using assms(2) by (simp add: coverStage_not_soldier)

section \<open>Stun\<close>

lemma stun_fields:
  "state (stun d e) = STUNNED" "velocity (stun d e) = vzero" "isStunned (stun d e)"
  "stunTime (stun d e) = d" "isAlive (stun d e) = isAlive e"
  "previousState (stun d e) = (if state e = STUNNED then previousState e else state e)"
  by (simp_all add: stun_def)

lemma stunTick_running:
  assumes "dt < stunTime x"
  shows "stunTick dt x = x\<lparr>stunTime := stunTime x - dt\<rparr>"
  using assms by (simp add: stunTick_def Let_def)

lemma stunTick_elapsed:
  assumes "stunTime x \<le> dt"
  shows "state (stunTick dt x) = previousState x" and "\<not> isStunned (stunTick dt x)"
  using assms by (simp_all add: stunTick_def Let_def)

lemma updates_append: "updates (ts @ us) x = updates us (updates ts x)"
  by (induction ts arbitrary: x) auto

lemma updates_while_stunned:
  assumes "isAlive x" and "isStunned x"
    and "\<forall>k. 0 < k \<and> k \<le> length ticks \<longrightarrow> sum_list (map fst (take k ticks)) < stunTime x"
  shows "updates ticks x = x\<lparr>stunTime := stunTime x - sum_list (map fst ticks)\<rparr>"
  using assms
proof (induction ticks arbitrary: x)
  case Nil
  then show ?case by simp
next
  case (Cons t ticks)
  obtain dt steps where t: "t = (dt, steps)" by (cases t)
  have first: "dt < stunTime x"
    using Cons.prems(3) [rule_format, of 1] t by simp
  let ?x = "x\<lparr>stunTime := stunTime x - dt\<rparr>"
  have step: "update dt steps x = ?x"
    using Cons.prems(1,2) first by (simp add: update_def stunTick_running)
  have rest: "\<forall>k. 0 < k \<and> k \<le> length ticks \<longrightarrow>
      sum_list (map fst (take k ticks)) < stunTime ?x"
  proof (intro allI impI)
    fix k assume k: "0 < k \<and> k \<le> length ticks"
    then have "sum_list (map fst (take (Suc k) (t # ticks))) < stunTime x"
      using Cons.prems(3) [rule_format, of "Suc k"] by simp
    then show "sum_list (map fst (take k ticks)) < stunTime ?x"
      using t by simp
  qed
  have "updates ticks ?x = ?x\<lparr>stunTime := stunTime ?x - sum_list (map fst ticks)\<rparr>"
    using Cons.IH [of ?x] Cons.prems(1,2) rest by simp
  then show ?case using t step by (simp add: algebra_simps)
qed

text \<open>
  What holds of a living entity that is stunned and then only updated, with the exact
  arithmetic of the model on the timer: \<open>stun(d)\<close> with \<open>d > 0\<close> in a state \<open>S\<close> other than
  Stunned sets the state to Stunned and the velocity to zero and keeps \<open>S\<close> as the
  previous state; as long as the update times add up to less than \<open>d\<close>, the updates
  change nothing but the stun timer, whatever the tick would have decided; the update
  with which the sum reaches \<open>d\<close> puts the state back to \<open>S\<close>. Nothing is said here of a
  dead entity, nor of an entity that is hit while it is stunned.
\<close>

lemma stun_then_updates_only:
  assumes "isAlive e" and "state e = S" and "S \<noteq> STUNNED" and "0 < d"
  shows "state (stun d e) = STUNNED \<and> velocity (stun d e) = vzero
       \<and> previousState (stun d e) = S \<and> isStunned (stun d e)
       \<and> (\<forall>ticks.
            (\<forall>k. 0 < k \<and> k \<le> length ticks \<longrightarrow> sum_list (map fst (take k ticks)) < d) \<longrightarrow>
              updates ticks (stun d e) = (stun d e)\<lparr>stunTime := d - sum_list (map fst ticks)\<rparr>
              \<and> (\<forall>dt steps. d \<le> sum_list (map fst ticks) + dt \<longrightarrow>
                    state (updates (ticks @ [(dt, steps)]) (stun d e)) = S
                    \<and> \<not> isStunned (updates (ticks @ [(dt, steps)]) (stun d e))))"
proof -
  let ?x = "stun d e"
  have x: "isAlive ?x" "isStunned ?x" "stunTime ?x = d" "previousState ?x = S"
    using assms by (simp_all add: stun_fields)
  have frozen: "updates ticks ?x = ?x\<lparr>stunTime := d - sum_list (map fst ticks)\<rparr>"
    if "\<forall>k. 0 < k \<and> k \<le> length ticks \<longrightarrow> sum_list (map fst (take k ticks)) < d" for ticks
    using updates_while_stunned [of ?x ticks] x that by simp
  have restored: "state (updates (ticks @ [(dt, steps)]) ?x) = S
      \<and> \<not> isStunned (updates (ticks @ [(dt, steps)]) ?x)"
    if "\<forall>k. 0 < k \<and> k \<le> length ticks \<longrightarrow> sum_list (map fst (take k ticks)) < d"
      and "d \<le> sum_list (map fst ticks) + dt" for ticks dt steps
  proof -
    let ?y = "?x\<lparr>stunTime := d - sum_list (map fst ticks)\<rparr>"
    have y: "isAlive ?y" "isStunned ?y" "stunTime ?y \<le> dt" "previousState ?y = S"
      using x that(2) by simp_all
    have "updates (ticks @ [(dt, steps)]) ?x = stunTick dt ?y"
      using frozen [OF that(1)] y(1,2) by (simp add: updates_append update_def)
    then show ?thesis using stunTick_elapsed [OF y(3)] y(4) by simp
  qed
  show ?thesis
    using assms(2,3) frozen restored by (simp add: stun_fields)
qed

section \<open>The soldier: what the base methods do to its own fields\<close>

lemma soldier_emit_fields [simp]:
  "suppressTimer (emit ev s) = suppressTimer s" "burstCount (emit ev s) = burstCount s"
  "burstSize (emit ev s) = burstSize s"
  by (simp_all add: emit_def)

lemma soldier_setState_fields [simp]:
  "suppressTimer (setState st s) = suppressTimer s" "burstCount (setState st s) = burstCount s"
  "burstSize (setState st s) = burstSize s"
  by (cases st; cases "state s"; simp add: setState_def Let_def onEnterState_def onExitState_def emit_def)+

lemma soldier_die_fields [simp]:
  "suppressTimer (die s) = suppressTimer s" "burstCount (die s) = burstCount s"
  "burstSize (die s) = burstSize s"
  by (simp_all add: die_def Let_def stop_def)

lemma soldier_hitStage_fields [simp]:
  "suppressTimer (hitStage a s) = suppressTimer s" "burstCount (hitStage a s) = burstCount s"
  "burstSize (hitStage a s) = burstSize s"
  by (simp_all add: hitStage_def Let_def)

lemma soldier_coverStage_fields [simp]:
  "suppressTimer (coverStage s) = suppressTimer s" "burstCount (coverStage s) = burstCount s"
  "burstSize (coverStage s) = burstSize s"
  by (simp_all add: coverStage_def split: option.splits)

lemma takeDamage_cases:
  "takeDamage amount e =
     (if \<not> isAlive e then e
      else coverStage (if health (hitStage amount e) \<le> 0 then die (hitStage amount e)
                       else hitStage amount e))"
  by (simp add: takeDamage_def takeDamageWith_dead takeDamageWith_stages)

lemma soldier_takeDamage_fields [simp]:
  "suppressTimer (takeDamage a s) = suppressTimer s" "burstCount (takeDamage a s) = burstCount s"
  "burstSize (takeDamage a s) = burstSize s" "maxHealth (takeDamage a s) = maxHealth s"
  "movementConfig (takeDamage a s) = movementConfig s"
  by (simp_all add: takeDamage_cases)

lemma moveToCover_fields [simp]:
  "state (moveToCover r p s) = state s" "health (moveToCover r p s) = health s"
  "maxHealth (moveToCover r p s) = maxHealth s" "isAlive (moveToCover r p s) = isAlive s"
  "suppressTimer (moveToCover r p s) = suppressTimer s" "trace (moveToCover r p s) = trace s"
  "movementConfig (moveToCover r p s) = movementConfig s"
  by (simp_all add: moveToCover_def Let_def split: prod.splits)

lemma findAndMoveToCover_fields [simp]:
  "state (findAndMoveToCover rnd s) = COVER" "health (findAndMoveToCover rnd s) = health s"
  "maxHealth (findAndMoveToCover rnd s) = maxHealth s"
  "isAlive (findAndMoveToCover rnd s) = isAlive s"
  "suppressTimer (findAndMoveToCover rnd s) = suppressTimer s"
  "movementConfig (findAndMoveToCover rnd s) = movementConfig s"
  "trace (findAndMoveToCover rnd s) = trace (setState COVER s)"
  by (simp_all add: findAndMoveToCover_def Let_def split: option.splits)

lemma Soldier_takeDamage_fields:
  "suppressTimer (Soldier_takeDamage rnd a s) = suppressTimer s + 1"
  "health (Soldier_takeDamage rnd a s) = health (takeDamage a s)"
  "maxHealth (Soldier_takeDamage rnd a s) = maxHealth s"
  "isAlive (Soldier_takeDamage rnd a s) = isAlive (takeDamage a s)"
  "movementConfig (Soldier_takeDamage rnd a s) = movementConfig s"
  "state (Soldier_takeDamage rnd a s) =
     (if health (takeDamage a s) < maxHealth s * 0.5 then COVER else state (takeDamage a s))"
  by (simp_all add: Soldier_takeDamage_def Let_def)

lemma Soldier_new_fields:
  "health (Soldier_new p c) = 120" "maxHealth (Soldier_new p c) = 120"
  "armor (Soldier_new p c) = 30" "isAlive (Soldier_new p c)" "state (Soldier_new p c) = IDLE"
  "characterType (Soldier_new p c) = SOLDIER" "suppressTimer (Soldier_new p c) = 0"
  "retreatDistance (movementConfig (Soldier_new p c)) = 0.4"
  "maxDistance (movementConfig (Soldier_new p c)) = 30"
  "burstCount (Soldier_new p c) = 0" "burstSize (Soldier_new p c) = 3"
  "trace (Soldier_new p c) = []" "lastAttackTime (Soldier_new p c) = 0"
  "coverSpots (Soldier_new p c) = (case c of None \<Rightarrow> [] | Some cs \<Rightarrow> cs)"
  "damage (Soldier_new p c) = 20"
  by (simp_all add: Soldier_new_def Let_def AICharacter_new_def SOLDIER_CONFIG_def
      AICharacter.defs Soldier.defs split: option.splits)

section \<open>Cover seeking of the soldier\<close>


lemma updateTimers_fields [simp]:
  "health (updateTimers dt s) = health s" "maxHealth (updateTimers dt s) = maxHealth s"
  "movementConfig (updateTimers dt s) = movementConfig s" "state (updateTimers dt s) = state s"
  by (simp_all add: updateTimers_def Let_def)

lemma soldier_cover_armor [simp]:
  "armor (moveToCover r p s) = armor s" "armor (findAndMoveToCover rnd s) = armor s"
  "armor (Soldier_takeDamage rnd a s) = armor (takeDamage a s)"
  by (simp_all add: moveToCover_def findAndMoveToCover_def Soldier_takeDamage_def Let_def
      split: option.splits prod.splits)


lemma freshSoldier_hit_100:
  "health (takeDamage 100 freshSoldier) = 50" "isAlive (takeDamage 100 freshSoldier)"
  "armor (takeDamage 100 freshSoldier) = 0"
  by (simp_all add: takeDamage_cases freshSoldier_def Soldier_new_fields absorbed_def)



section \<open>Burst fire\<close>

lemma sqrt_100: "sqrt 100 = 10"
  by (rule real_sqrt_unique) simp_all

lemma engaged_distance: "distanceTo (0, 0, 0) (0, 0, 10) = 10"
  by (simp add: distanceTo_def sqrt_100)

lemma performBurstFire_shot:
  assumes "target s = Some tgt" and "isAlive s"
    and "distanceTo (position s) tgt \<le> maxDistance (movementConfig s)"
    and "0 < burstSize s" and "now - lastAttackTime s > 150"
  shows "trace (performBurstFire now s) = trace s @ [Fired (damage s)]"
    and "burstCount (performBurstFire now s) =
           (if burstCount s \<le> 0 then burstSize s else burstCount s) - 1"
    and "lastAttackTime (performBurstFire now s) = now"
    and "attackCooldown (performBurstFire now s) = 0.15"
    and "target (performBurstFire now s) = target s"
    and "isAlive (performBurstFire now s) = isAlive s"
    and "position (performBurstFire now s) = position s"
    and "movementConfig (performBurstFire now s) = movementConfig s"
    and "burstSize (performBurstFire now s) = burstSize s"
    and "damage (performBurstFire now s) = damage s"
  using assms
  by (simp_all add: performBurstFire_def Soldier_performAttack_def Let_def emit_def)

lemma performBurstFire_never_pauses:
  assumes "0 < burstSize s"
  shows "attackCooldown (performBurstFire now s) = 0.15"
  using assms
  by (simp add: performBurstFire_def Soldier_performAttack_def Let_def emit_def
      split: option.splits)

lemma performBurstFire_attempts_whenever_150ms_passed:
  assumes "0 < burstSize s" and "now - lastAttackTime s > 150"
  shows "lastAttackTime (performBurstFire now s) = now"
  using assms
  by (simp add: performBurstFire_def Soldier_performAttack_def Let_def emit_def
      split: option.splits)

lemma engagedSoldier_fields:
  "target engagedSoldier = Some (0, 0, 10)" "isAlive engagedSoldier"
  "position engagedSoldier = (0, 0, 0)" "maxDistance (movementConfig engagedSoldier) = 30"
  "burstSize engagedSoldier = 3" "burstCount engagedSoldier = 0"
  "lastAttackTime engagedSoldier = 0" "trace engagedSoldier = []" "damage engagedSoldier = 20"
  by (simp_all add: engagedSoldier_def Soldier_new_fields)
    (simp_all add: Soldier_new_def AICharacter_new_def AICharacter.defs Soldier.defs vzero_def)


lemma burst_step:
  assumes "target s = Some (0, 0, 10)" and "isAlive s" and "position s = (0, 0, 0)"
    and "maxDistance (movementConfig s) = 30" and "burstSize s = 3"
    and "now - lastAttackTime s > 150"
  shows "target (performBurstFire now s) = Some (0, 0, 10)"
    and "isAlive (performBurstFire now s)"
    and "position (performBurstFire now s) = (0, 0, 0)"
    and "maxDistance (movementConfig (performBurstFire now s)) = 30"
    and "burstSize (performBurstFire now s) = 3"
    and "lastAttackTime (performBurstFire now s) = now"
    and "attackCooldown (performBurstFire now s) = 0.15"
    and "burstCount (performBurstFire now s) = (if burstCount s \<le> 0 then 3 else burstCount s) - 1"
    and "firedCount (performBurstFire now s) = firedCount s + 1"
proof -
  have d: "distanceTo (position s) (0, 0, 10) \<le> maxDistance (movementConfig s)"
    using assms(3,4) by (simp add: engaged_distance)
  have b: "0 < burstSize s" using assms(5) by simp
  note shot = performBurstFire_shot [OF assms(1,2) d b assms(6)]
  show "target (performBurstFire now s) = Some (0, 0, 10)" using shot(5) assms(1) by simp
  show "isAlive (performBurstFire now s)" using shot(6) assms(2) by simp
  show "position (performBurstFire now s) = (0, 0, 0)" using shot(7) assms(3) by simp
  show "maxDistance (movementConfig (performBurstFire now s)) = 30" using shot(8) assms(4) by simp
  show "burstSize (performBurstFire now s) = 3" using shot(9) assms(5) by simp
  show "lastAttackTime (performBurstFire now s) = now" using shot(3) .
  show "attackCooldown (performBurstFire now s) = 0.15" using shot(4) .
  show "burstCount (performBurstFire now s) = (if burstCount s \<le> 0 then 3 else burstCount s) - 1"
    using shot(2) assms(5) by simp
  show "firedCount (performBurstFire now s) = firedCount s + 1"
    using shot(1) by (simp add: firedCount_def)
qed

text \<open>
  C8, at the failing input. The soldier attacks a target in range, \<open>performBurstFire\<close>
  being called every 200 ms. The first three calls fire the three rounds of a burst and
  leave the burst counter at 0. The fourth call, 200 ms after the third round, refills
  the counter and fires at once: no pause of 0.5 s lies between the bursts, and the
  cooldown written is 0.15 s all along.
\<close>

theorem C8_next_burst_starts_without_pause:
  "firedCount (burstFireAt [1000, 1200, 1400] engagedSoldier) = 3
   \<and> burstCount (burstFireAt [1000, 1200, 1400] engagedSoldier) = 0
   \<and> lastAttackTime (burstFireAt [1000, 1200, 1400] engagedSoldier) = 1400
   \<and> firedCount (burstFireAt [1000, 1200, 1400, 1600] engagedSoldier) = 4
   \<and> lastAttackTime (burstFireAt [1000, 1200, 1400, 1600] engagedSoldier) = 1600
   \<and> burstCount (burstFireAt [1000, 1200, 1400, 1600] engagedSoldier) = 2
   \<and> attackCooldown (burstFireAt [1000, 1200, 1400, 1600] engagedSoldier) = 0.15"
proof -
  let ?s0 = engagedSoldier
  let ?s1 = "performBurstFire 1000 ?s0"
  let ?s2 = "performBurstFire 1200 ?s1"
  let ?s3 = "performBurstFire 1400 ?s2"
  let ?s4 = "performBurstFire 1600 ?s3"
  note f0 = engagedSoldier_fields
  have c0: "firedCount ?s0 = 0" by (simp add: firedCount_def f0)
  have t0: "1000 - lastAttackTime ?s0 > 150" by (simp add: f0)
  note f1 = burst_step [OF f0(1,2,3,4,5) t0]
  have t1: "1200 - lastAttackTime ?s1 > 150" by (simp add: f1)
  note f2 = burst_step [OF f1(1,2,3,4,5) t1]
  have t2: "1400 - lastAttackTime ?s2 > 150" by (simp add: f2)
  note f3 = burst_step [OF f2(1,2,3,4,5) t2]
  have t3: "1600 - lastAttackTime ?s3 > 150" by (simp add: f3)
  note f4 = burst_step [OF f3(1,2,3,4,5) t3]
  have b1: "burstCount ?s1 = 2" by (simp add: f1 f0)
  have b2: "burstCount ?s2 = 1" by (simp add: f2 b1)
  have b3: "burstCount ?s3 = 0" by (simp add: f3 b2)
  have b4: "burstCount ?s4 = 2" by (simp add: f4 b3)
  have n3: "firedCount ?s3 = 3" by (simp add: f3 f2 f1 c0)
  have n4: "firedCount ?s4 = 4" by (simp add: f4 n3)
  have r3: "burstFireAt [1000, 1200, 1400] ?s0 = ?s3" by simp
  have r4: "burstFireAt [1000, 1200, 1400, 1600] ?s0 = ?s4" by simp
  show ?thesis
    unfolding r3 r4 using n3 b3 f3(6) n4 f4(6) b4 f4(7) by simp
qed

section \<open>Death callbacks\<close>

lemma takeDamage_static_fields [simp]:
  "position (takeDamage a e) = position e" "coverSpots (takeDamage a e) = coverSpots e"
  "target (takeDamage a e) = target e" "characterType (takeDamage a e) = characterType e"
  by (simp_all add: takeDamage_cases)

lemma takeDamage_isAlive:
  "isAlive (takeDamage a e) \<longleftrightarrow> isAlive e \<and> 0 < health e - (a - absorbed a e)"
  by (auto simp: takeDamage_cases)

lemma deathCallbackRuns_setState [simp]:
  "deathCallbackRuns (setState s e) = deathCallbackRuns e"
  by (simp add: deathCallbackRuns_def setState_trace)

lemma deathCallbackRuns_hitStage [simp]:
  "deathCallbackRuns (hitStage a e) = deathCallbackRuns e"
  by (simp add: deathCallbackRuns_def hitStage_trace)

lemma deathCallbackRuns_coverStage [simp]:
  "deathCallbackRuns (coverStage e) = deathCallbackRuns e"
  by (simp add: deathCallbackRuns_def coverStage_trace)

lemma deathCallbackRuns_die [simp]:
  "deathCallbackRuns (die e) = deathCallbackRuns e + 1"
  by (simp add: deathCallbackRuns_def die_trace setState_trace)

lemma deathCallbackRuns_takeDamage:
  "deathCallbackRuns (takeDamage a e) =
     deathCallbackRuns e + (if isAlive e \<and> \<not> isAlive (takeDamage a e) then 1 else 0)"
  by (auto simp: takeDamage_cases)

text \<open>What the death callbacks see: a dead entity in state Dead, at rest, with health 0.\<close>

lemma die_last_event:
  "last (trace (die e)) =
     OnDeath \<lparr> seen_health = 0, seen_maxHealth = maxHealth e, seen_alive = False,
                seen_state = DEAD, seen_velocity = vzero \<rparr>"
  by (simp add: die_trace)

text \<open>
  On the base class, a sequence of \<open>takeDamage\<close> calls on a living entity runs the death
  callbacks once if it kills the entity and not at all otherwise, and a call on a dead
  entity changes nothing.
\<close>

lemma takeDamage_on_dead_is_noop: "\<not> isAlive e \<Longrightarrow> takeDamage a e = e"
  by (simp add: takeDamage_cases)

lemma takeDamages_on_dead_is_noop: "\<not> isAlive e \<Longrightarrow> takeDamages amounts e = e"
  by (induction amounts) (simp_all add: takeDamage_on_dead_is_noop)

lemma takeDamages_death_callbacks_once:
  assumes "isAlive e" and "deathCallbackRuns e = 0"
  shows "deathCallbackRuns (takeDamages amounts e) =
           (if isAlive (takeDamages amounts e) then 0 else 1)"
  using assms
proof (induction amounts arbitrary: e)
  case Nil
  then show ?case by simp
next
  case (Cons a amounts)
  show ?case
  proof (cases "isAlive (takeDamage a e)")
    case True
    then have "deathCallbackRuns (takeDamage a e) = 0"
      using Cons.prems by (simp add: deathCallbackRuns_takeDamage)
    then show ?thesis using Cons.IH [OF True] by simp
  next
    case False
    then have "deathCallbackRuns (takeDamage a e) = 1"
      using Cons.prems by (simp add: deathCallbackRuns_takeDamage)
    then show ?thesis using False by (simp add: takeDamages_on_dead_is_noop)
  qed
qed

lemma sqrt_9: "sqrt 9 = 3"
  by (rule real_sqrt_unique) simp_all

lemma coverStage_velocity [simp]: "velocity (coverStage e) = velocity e"
  by (simp add: coverStage_def split: option.splits)

lemma freshSoldier_fields:
  "isAlive freshSoldier" "health freshSoldier = 120" "armor freshSoldier = 30"
  "maxHealth freshSoldier = 120" "position freshSoldier = (0, 0, 0)"
  "coverSpots freshSoldier = []" "runSpeed (movementConfig freshSoldier) = 4"
  "deathCallbackRuns freshSoldier = 0" "suppressTimer freshSoldier = 0"
  "characterType freshSoldier = SOLDIER"
  by (simp_all add: freshSoldier_def Soldier_new_fields deathCallbackRuns_def)
    (simp_all add: Soldier_new_def AICharacter_new_def AICharacter.defs Soldier.defs vzero_def
      SOLDIER_CONFIG_def)

lemma freshSoldier_killed:
  "\<not> isAlive (takeDamage 1000 freshSoldier)" "health (takeDamage 1000 freshSoldier) = 0"
  "state (takeDamage 1000 freshSoldier) = DEAD" "velocity (takeDamage 1000 freshSoldier) = vzero"
  "deathCallbackRuns (takeDamage 1000 freshSoldier) = 1"
  "position (takeDamage 1000 freshSoldier) = (0, 0, 0)"
  "coverSpots (takeDamage 1000 freshSoldier) = []"
  "runSpeed (movementConfig (takeDamage 1000 freshSoldier)) = 4"
  "maxHealth (takeDamage 1000 freshSoldier) = 120"
  by (simp_all add: takeDamage_cases freshSoldier_fields absorbed_def coverStage_state)


lemma boss_takeDamage_on_dead_is_noop: "\<not> isAlive b \<Longrightarrow> BossBase_takeDamage a b = b"
  by (simp add: BossBase_takeDamage_def)

lemma Soldier_takeDamage_deathCallbackRuns:
  "deathCallbackRuns (Soldier_takeDamage rnd a s) = deathCallbackRuns (takeDamage a s)"
proof -
  have "deathCallbackRuns (findAndMoveToCover rnd x) = deathCallbackRuns x" for x :: "'a Soldier_scheme"
    using deathCallbackRuns_setState [of COVER x] by (simp add: deathCallbackRuns_def)
  moreover have "deathCallbackRuns (x\<lparr>suppressTimer := t\<rparr>) = deathCallbackRuns x"
    for x :: "'a Soldier_scheme" and t
    by (simp add: deathCallbackRuns_def)
  ultimately show ?thesis by (simp add: Soldier_takeDamage_def Let_def)
qed

lemma findAndMoveToCover_probe:
  assumes "coverSpots x = []" and "position x = (0, 0, 0)" and "velocity x = vzero"
  shows "velocity (findAndMoveToCover rnd x) = (runSpeed (movementConfig x), 0, 0)"
  using assms
  by (simp add: findAndMoveToCover_def Let_def searchForCover_def moveToCover_def
      vadd_def vsub_def vlength_def vzero_def sqrt_9)

lemma killedSoldier_fields:
  "\<not> isAlive (Soldier_takeDamage rnd 1000 freshSoldier)"
  "health (Soldier_takeDamage rnd 1000 freshSoldier) = 0"
  "maxHealth (Soldier_takeDamage rnd 1000 freshSoldier) = 120"
  "state (Soldier_takeDamage rnd 1000 freshSoldier) = COVER"
  "suppressTimer (Soldier_takeDamage rnd 1000 freshSoldier) = 1"
  "deathCallbackRuns (Soldier_takeDamage rnd 1000 freshSoldier) = 1"
  by (simp_all add: Soldier_takeDamage_fields Soldier_takeDamage_deathCallbackRuns
      freshSoldier_killed freshSoldier_fields)

lemma killedSoldier_velocity:
  "velocity (Soldier_takeDamage rnd 1000 freshSoldier) = (4, 0, 0)"
proof -
  let ?x = "(takeDamage 1000 freshSoldier)\<lparr>suppressTimer := suppressTimer (takeDamage 1000 freshSoldier) + 1\<rparr>"
  have x: "coverSpots ?x = []" "position ?x = (0, 0, 0)" "velocity ?x = vzero"
    "runSpeed (movementConfig ?x) = 4" "health ?x = 0" "maxHealth ?x = 120" "state ?x = DEAD"
    using freshSoldier_killed by simp_all
  have "Soldier_takeDamage rnd 1000 freshSoldier = findAndMoveToCover rnd ?x"
    using x(5,6,7) by (simp add: Soldier_takeDamage_def Let_def)
  then show ?thesis using findAndMoveToCover_probe [OF x(1,2,3), of rnd] x(4) by simp
qed

text \<open>
  C3, at the failing input. A fresh soldier takes a lethal hit of 1000 and then a hit of
  0. The death callbacks run once, in the first call, and not again. But
  \<open>Soldier.takeDamage\<close> has no liveness guard of its own around what it does after the
  base method: the lethal call itself ends with the dead soldier in state Cover and
  moving, and the later call on the dead soldier adds a second to its suppression timer;
  after a \<open>stun\<close> the later call also takes the dead soldier from Stunned to Cover.
\<close>

theorem C3_takeDamage_on_dead_soldier_is_not_a_noop:
  "\<not> isAlive (Soldier_takeDamage (\<lambda>i. 0) 1000 freshSoldier)
   \<and> deathCallbackRuns (Soldier_takeDamage (\<lambda>i. 0) 1000 freshSoldier) = 1
   \<and> state (Soldier_takeDamage (\<lambda>i. 0) 1000 freshSoldier) = COVER
   \<and> velocity (Soldier_takeDamage (\<lambda>i. 0) 1000 freshSoldier) = (4, 0, 0)
   \<and> suppressTimer (Soldier_takeDamage (\<lambda>i. 0) 1000 freshSoldier) = 1
   \<and> suppressTimer (Soldier_takeDamage (\<lambda>i. 0) 0 (Soldier_takeDamage (\<lambda>i. 0) 1000 freshSoldier)) = 2
   \<and> deathCallbackRuns
        (Soldier_takeDamage (\<lambda>i. 0) 0 (Soldier_takeDamage (\<lambda>i. 0) 1000 freshSoldier)) = 1
   \<and> Soldier_takeDamage (\<lambda>i. 0) 0 (Soldier_takeDamage (\<lambda>i. 0) 1000 freshSoldier)
        \<noteq> Soldier_takeDamage (\<lambda>i. 0) 1000 freshSoldier
   \<and> state (stun 1 (Soldier_takeDamage (\<lambda>i. 0) 1000 freshSoldier)) = STUNNED
   \<and> state (Soldier_takeDamage (\<lambda>i. 0) 0 (stun 1 (Soldier_takeDamage (\<lambda>i. 0) 1000 freshSoldier)))
        = COVER"
proof -
  let ?s1 = "Soldier_takeDamage (\<lambda>i. 0) 1000 freshSoldier"
  let ?s2 = "Soldier_takeDamage (\<lambda>i. 0) 0 ?s1"
  note k = killedSoldier_fields [of "\<lambda>i. 0"]
  have dead: "takeDamage 0 ?s1 = ?s1" using k(1) by (rule takeDamage_on_dead_is_noop)
  have sup2: "suppressTimer ?s2 = 2"
    by (simp add: Soldier_takeDamage_fields freshSoldier_fields)
  have runs2: "deathCallbackRuns ?s2 = 1"
    using k(6) by (simp add: Soldier_takeDamage_deathCallbackRuns dead)
  have differ: "?s2 \<noteq> ?s1"
  proof
    assume "?s2 = ?s1"
    then have "suppressTimer ?s2 = suppressTimer ?s1" by simp
    then show False using sup2 k(5) by simp
  qed
  have stunned: "state (stun 1 ?s1) = STUNNED" by (simp add: stun_fields)
  have deadStunned: "takeDamage 0 (stun 1 ?s1) = stun 1 ?s1"
    using k(1) by (simp add: takeDamage_on_dead_is_noop stun_fields)
  have hs: "health (stun 1 ?s1) = 0" "maxHealth (stun 1 ?s1) = 120"
    using k(2,3) by (simp_all add: stun_def)
  have again: "state (Soldier_takeDamage (\<lambda>i. 0) 0 (stun 1 ?s1)) = COVER"
    by (simp only: Soldier_takeDamage_fields deadStunned hs) simp
  show ?thesis
    apply (intro conjI)
    using k killedSoldier_velocity [of "\<lambda>i. 0"] sup2 runs2 differ stunned again by simp_all
qed

section \<open>Stun on a dead entity, and a hit while stunned\<close>

lemma coverStage_no_armor: "armor e \<le> 0 \<Longrightarrow> coverStage e = e"
  by (simp add: coverStage_def)

lemma moveToCover_stun_fields [simp]:
  "previousState (moveToCover r p s) = previousState s"
  "isStunned (moveToCover r p s) = isStunned s" "stunTime (moveToCover r p s) = stunTime s"
  by (simp_all add: moveToCover_def Let_def split: prod.splits)

lemma findAndMoveToCover_stun_fields [simp]:
  "previousState (findAndMoveToCover rnd s) =
     (if state s = COVER then previousState s else state s)"
  "isStunned (findAndMoveToCover rnd s) = isStunned s"
  "stunTime (findAndMoveToCover rnd s) = stunTime s"
  by (simp_all add: findAndMoveToCover_def Let_def split: option.splits)

lemma chasingSoldier_fields:
  "isAlive chasingSoldier" "state chasingSoldier = CHASE" "health chasingSoldier = 120"
  "maxHealth chasingSoldier = 120" "armor chasingSoldier = 30"
  by (simp_all add: chasingSoldier_def freshSoldier_fields)

lemma stunnedSoldier_fields:
  "isAlive (stun 2 chasingSoldier)" "state (stun 2 chasingSoldier) = STUNNED"
  "previousState (stun 2 chasingSoldier) = CHASE" "isStunned (stun 2 chasingSoldier)"
  "stunTime (stun 2 chasingSoldier) = 2" "health (stun 2 chasingSoldier) = 120"
  "maxHealth (stun 2 chasingSoldier) = 120" "armor (stun 2 chasingSoldier) = 30"
  by (simp_all add: stun_def chasingSoldier_fields)

lemma stunnedSoldier_hit:
  "takeDamage 100 (stun 2 chasingSoldier) = hitStage 100 (stun 2 chasingSoldier)"
proof -
  let ?x = "stun 2 chasingSoldier"
  have h: "health (hitStage 100 ?x) = 50" and a: "armor (hitStage 100 ?x) = 0"
    by (simp_all add: stunnedSoldier_fields absorbed_def)
  show ?thesis
    using stunnedSoldier_fields(1) h coverStage_no_armor [of "hitStage 100 ?x"] a
    by (simp add: takeDamage_cases)
qed

lemma stunnedSoldier_after_hit:
  "state (Soldier_takeDamage rnd 100 (stun 2 chasingSoldier)) = COVER"
  "previousState (Soldier_takeDamage rnd 100 (stun 2 chasingSoldier)) = STUNNED"
  "isStunned (Soldier_takeDamage rnd 100 (stun 2 chasingSoldier))"
  "isAlive (Soldier_takeDamage rnd 100 (stun 2 chasingSoldier))"
  "stunTime (Soldier_takeDamage rnd 100 (stun 2 chasingSoldier)) = 2"
  "health (Soldier_takeDamage rnd 100 (stun 2 chasingSoldier)) = 50"
  by (simp_all add: Soldier_takeDamage_def Let_def stunnedSoldier_hit stunnedSoldier_fields
      absorbed_def)

text \<open>
  C5, at two failing inputs. A dead entity is in the state Dead, which is not Stunned:
  \<open>stun\<close> has no liveness guard and moves it to Stunned, and \<open>update\<close> returns at once on
  a dead entity, so the state never goes back to Dead. A living soldier in Chase is
  stunned for 2 s and hit for 100 while stunned: the hit moves it to Cover at once, which
  makes Stunned the previous state, and the update with which the 2 s have passed sets
  the state to Stunned, not to Chase, and ends the stun.
\<close>

theorem C5_stun_does_not_return_to_the_pre_stun_state:
  "state (die (AICharacter_new scenarioConfig)) = DEAD
   \<and> state (stun 2 (die (AICharacter_new scenarioConfig))) = STUNNED
   \<and> state (updates [(1, []), (1, []), (5, [])] (stun 2 (die (AICharacter_new scenarioConfig))))
       = STUNNED
   \<and> isAlive chasingSoldier \<and> state chasingSoldier = CHASE
   \<and> state (stun 2 chasingSoldier) = STUNNED
   \<and> previousState (stun 2 chasingSoldier) = CHASE
   \<and> isAlive (Soldier_takeDamage (\<lambda>i. 0) 100 (stun 2 chasingSoldier))
   \<and> isStunned (Soldier_takeDamage (\<lambda>i. 0) 100 (stun 2 chasingSoldier))
   \<and> state (Soldier_takeDamage (\<lambda>i. 0) 100 (stun 2 chasingSoldier)) = COVER
   \<and> previousState (Soldier_takeDamage (\<lambda>i. 0) 100 (stun 2 chasingSoldier)) = STUNNED
   \<and> state (Soldier_update 2 [] (Soldier_takeDamage (\<lambda>i. 0) 100 (stun 2 chasingSoldier)))
       = STUNNED
   \<and> \<not> isStunned (Soldier_update 2 [] (Soldier_takeDamage (\<lambda>i. 0) 100 (stun 2 chasingSoldier)))"
proof -
  let ?z = "Soldier_takeDamage (\<lambda>i. 0) 100 (stun 2 chasingSoldier)"
  note z = stunnedSoldier_after_hit [of "\<lambda>i. 0"]
  have dead: "state (die (AICharacter_new scenarioConfig)) = DEAD"
    "state (stun 2 (die (AICharacter_new scenarioConfig))) = STUNNED"
    "state (updates [(1, []), (1, []), (5, [])] (stun 2 (die (AICharacter_new scenarioConfig))))
       = STUNNED"
    by (simp_all add: stun_fields update_def)
  have tick: "Soldier_update 2 [] ?z = stunTick 2 ?z"
    using z(3,4) by (simp add: Soldier_update_def)
  have elapsed: "stunTime ?z \<le> 2" using z(5) by simp
  have after: "state (Soldier_update 2 [] ?z) = STUNNED" "\<not> isStunned (Soldier_update 2 [] ?z)"
    using stunTick_elapsed [OF elapsed] z(2) by (simp_all add: tick)
  show ?thesis
    apply (intro conjI)
    using dead chasingSoldier_fields(1,2) stunnedSoldier_fields(2,3) z(1,2,3,4) after
    by simp_all
qed

section \<open>Health stays in range: every kind of entity\<close>

lemma takeDamageWith_keeps_range:
  assumes dieM: "\<And>x. list_all seenAtMostMax (trace x) \<Longrightarrow> 0 \<le> maxHealth x \<Longrightarrow> inRange (dieM x)"
    and "inRange e" and "0 \<le> amount"
  shows "inRange (takeDamageWith dieM amount e)"
proof (cases "isAlive e")
  case False
  then show ?thesis using assms(2) by (simp add: takeDamageWith_dead)
next
  case True
  let ?h = "hitStage amount e"
  have ab: "absorbed amount e \<le> amount" using assms(3) by (auto simp: absorbed_def min_def)
  have ht: "list_all seenAtMostMax (trace ?h)" and hm: "0 \<le> maxHealth ?h"
    and hh: "health ?h \<le> maxHealth ?h"
    using assms(2) ab by (simp_all add: hitStage_trace healthInRange_def)
  have mid: "inRange (if health ?h \<le> 0 then dieM ?h else ?h)"
    using dieM [OF ht hm] ht hh by (simp add: healthInRange_def)
  show ?thesis
    unfolding takeDamageWith_stages [OF True]
    using coverStage_keeps_range mid by blast
qed

subsection \<open>The soldier\<close>

lemma moveToCover_keeps_range: "inRange (moveToCover r p s) = inRange s"
  by (simp add: healthInRange_def)

lemma findAndMoveToCover_keeps_range:
  assumes "inRange s"
  shows "inRange (findAndMoveToCover rnd s)"
  using assms seenAtMostMax_setState [of s COVER] by (simp add: healthInRange_def)

lemma performBurstFire_range_fields:
  "health (performBurstFire now s) = health s" "maxHealth (performBurstFire now s) = maxHealth s"
  "list_all seenAtMostMax (trace (performBurstFire now s)) = list_all seenAtMostMax (trace s)"
  by (simp_all add: performBurstFire_def Soldier_performAttack_def Let_def emit_def
      split: option.splits)

lemma updateTimers_trace [simp]: "trace (updateTimers dt s) = trace s"
  by (simp add: updateTimers_def Let_def)

lemma applySoldierStep_keeps_range:
  assumes "inRange s"
  shows "inRange (applySoldierStep st s)"
proof (cases st)
  case (SoldierBaseStep b)
  then show ?thesis using assms applyStep_keeps_range [of s b] by simp
next
  case (StepFindAndMoveToCover rnd)
  then show ?thesis using assms findAndMoveToCover_keeps_range [of s rnd] by simp
next
  case (StepPerformBurstFire now)
  then show ?thesis using assms by (simp add: healthInRange_def performBurstFire_range_fields)
next
  case (StepMoveToCover r p)
  then show ?thesis using assms by (simp add: healthInRange_def)
next
  case (StepSetCurrentCoverSpot c)
  then show ?thesis using assms by (simp add: healthInRange_def)
next
  case (StepSetRepositionTimer t)
  then show ?thesis using assms by (simp add: healthInRange_def)
next
  case (StepSetGrenadeCooldown t)
  then show ?thesis using assms by (simp add: healthInRange_def)
qed

lemma applySoldierSteps_keeps_range:
  assumes "inRange s"
  shows "inRange (applySoldierSteps sts s)"
  using assms
proof (induction sts arbitrary: s)
  case Nil
  then show ?case by simp
next
  case (Cons st sts)
  then show ?case using applySoldierStep_keeps_range [of s st] by simp
qed

lemma Soldier_update_keeps_range:
  assumes "inRange s"
  shows "inRange (Soldier_update d sts s)"
proof -
  have "inRange (updateTimers d s)" using assms by (simp add: healthInRange_def)
  then show ?thesis
    using assms applySoldierSteps_keeps_range [of "updateTimers d s" sts]
      stunTick_keeps_range [of s d]
    by (simp add: Soldier_update_def)
qed

lemma Soldier_takeDamage_keeps_range:
  assumes "inRange s" and "0 \<le> amount"
  shows "inRange (Soldier_takeDamage rnd amount s)"
proof -
  let ?s1 = "takeDamage amount s"
  let ?s2 = "?s1\<lparr>suppressTimer := suppressTimer ?s1 + 1.0\<rparr>"
  have "inRange ?s1" using takeDamage_keeps_range [of s amount] assms by simp
  then have s2: "inRange ?s2" by (simp add: healthInRange_def)
  show ?thesis
    using s2 findAndMoveToCover_keeps_range [OF s2, of rnd]
    by (simp add: Soldier_takeDamage_def Let_def)
qed

lemma applySoldierOp_keeps_range:
  assumes "inRange s" and "nonNegativeSoldierDamage op"
  shows "inRange (applySoldierOp op s)"
proof (cases op)
  case (SoldierTakeDamage rnd amount)
  then show ?thesis using assms Soldier_takeDamage_keeps_range [of s amount rnd] by simp
next
  case (SoldierUpdate d sts)
  then show ?thesis using assms Soldier_update_keeps_range [of s d sts] by simp
next
  case (SoldierStun d)
  then show ?thesis using assms stun_keeps_range [of s d] by simp
next
  case SoldierDie
  then show ?thesis using assms die_keeps_range [of s] by (simp add: healthInRange_def)
qed

lemma runSoldierOps_keeps_range:
  assumes "inRange s" and "list_all nonNegativeSoldierDamage ops"
  shows "inRange (runSoldierOps ops s)"
  using assms
proof (induction ops arbitrary: s)
  case Nil
  then show ?case by simp
next
  case (Cons op ops)
  have "inRange (applySoldierOp op s)"
    using applySoldierOp_keeps_range [of s op] Cons.prems by simp
  then show ?case using Cons.IH [of "applySoldierOp op s"] Cons.prems by simp
qed

subsection \<open>The boss\<close>

lemma BossBase_die_keeps_range:
  assumes "list_all seenAtMostMax (trace b)" and "0 \<le> maxHealth b"
  shows "inRange (BossBase_die b)"
  using die_keeps_range [OF assms] by (simp add: BossBase_die_def healthInRange_def)

lemma advanceToNextPhase_trace:
  "list_all seenAtMostMax (trace (advanceToNextPhase b)) = list_all seenAtMostMax (trace b)"
  by (simp add: advanceToNextPhase_def Let_def emit_def)

lemma checkPhaseTransition_keeps_range:
  "inRange (checkPhaseTransition b) = inRange b"
  by (simp add: healthInRange_def checkPhaseTransition_def Let_def advanceToNextPhase_trace)

lemma checkEnrage_keeps_range: "inRange (checkEnrage b) = inRange b"
  by (simp add: healthInRange_def checkEnrage_def enterEnrage_def Let_def emit_def)

lemma BossBase_takeDamage_keeps_range:
  assumes "inRange b" and "0 \<le> amount"
  shows "inRange (BossBase_takeDamage amount b)"
proof -
  let ?b1 = "b\<lparr>hitCount := hitCount b + 1\<rparr>"
  have b1: "inRange ?b1" using assms(1) by (simp add: healthInRange_def)
  have "inRange (takeDamageWith BossBase_die amount ?b1)"
    using takeDamageWith_keeps_range [of BossBase_die ?b1 amount] BossBase_die_keeps_range
      b1 assms(2) by blast
  then show ?thesis
    using assms(1)
    by (simp add: BossBase_takeDamage_def Let_def checkEnrage_keeps_range
        checkPhaseTransition_keeps_range)
qed

lemma applyBossStep_keeps_range:
  assumes "inRange b"
  shows "inRange (applyBossStep st b)"
proof (cases st)
  case (BaseStep t)
  then show ?thesis using assms applyStep_keeps_range [of b t] by simp
next
  case (StepPerformSpecial n)
  then show ?thesis using assms
    by (simp add: performSpecialAttack_def healthInRange_def emit_def)
next
  case StepEndSpecial
  then show ?thesis using assms by (simp add: endSpecialAttack_def healthInRange_def)
qed

lemma applyBossSteps_keeps_range:
  assumes "inRange b"
  shows "inRange (applyBossSteps sts b)"
  using assms
proof (induction sts arbitrary: b)
  case Nil
  then show ?case by simp
next
  case (Cons st sts)
  then show ?case using applyBossStep_keeps_range [of b st] by simp
qed

lemma BossBase_update_keeps_range:
  assumes "inRange b"
  shows "inRange (BossBase_update d sp ai b)"
proof -
  let ?b1 = "if specialAttackCooldown b > 0
             then b\<lparr>specialAttackCooldown := specialAttackCooldown b - d\<rparr> else b"
  let ?b2 = "if isPerformingSpecial ?b1
                \<and> (case currentSpecialAttack ?b1 of None \<Rightarrow> False | Some n \<Rightarrow> n \<noteq> [])
             then applyBossSteps sp ?b1 else ?b1"
  have b1: "inRange ?b1" using assms by (simp add: healthInRange_def)
  have b2: "inRange ?b2" using b1 applyBossSteps_keeps_range [OF b1, of sp] by presburger
  have b3: "inRange (if \<not> isPerformingSpecial ?b2 then applyBossSteps ai ?b2 else ?b2)"
    using b2 applyBossSteps_keeps_range [OF b2, of ai] by presburger
  show ?thesis
    using assms stunTick_keeps_range [of b d] b3
    by (simp add: BossBase_update_def Let_def)
qed

lemma applyBossOp_keeps_range:
  assumes "inRange b" and "nonNegativeBossDamage op"
  shows "inRange (applyBossOp op b)"
proof (cases op)
  case (BossTakeDamage amount)
  then show ?thesis using assms BossBase_takeDamage_keeps_range [of b amount] by simp
next
  case (BossUpdate d sp ai)
  then show ?thesis using assms BossBase_update_keeps_range [of b d sp ai] by simp
next
  case (BossStun d)
  then show ?thesis using assms stun_keeps_range [of b d] by simp
next
  case BossDie
  then show ?thesis using assms BossBase_die_keeps_range [of b] by (simp add: healthInRange_def)
qed

lemma runBossOps_keeps_range:
  assumes "inRange b" and "list_all nonNegativeBossDamage ops"
  shows "inRange (runBossOps ops b)"
  using assms
proof (induction ops arbitrary: b)
  case Nil
  then show ?case by simp
next
  case (Cons op ops)
  have "inRange (applyBossOp op b)"
    using applyBossOp_keeps_range [of b op] Cons.prems by simp
  then show ?case using Cons.IH [of "applyBossOp op b"] Cons.prems by simp
qed

lemma list_all_take: "list_all P xs \<Longrightarrow> list_all P (take n xs)"
  by (auto simp: list_all_iff dest: in_set_takeD)


lemma BossBase_new_in_range:
  assumes "BossBase_new config = Some b" and "0 < phaseHealth (hd (cfg_phases config))"
  shows "inRange b"
proof -
  have "trace b = []"
    using assms(1)
    by (auto simp: BossBase_new_def Let_def AICharacter_new_def AICharacter.defs BossBase.defs
        split: list.splits)
  then show ?thesis
    using BossBase_new_fields(2,3) [OF assms(1)] assms(2) by (simp add: healthInRange_def)
qed

text \<open>
  C1, in the form that holds of the code. For an entity constructed with positive health
  and any sequence of \<open>takeDamage\<close> calls with non-negative amounts, \<open>update\<close>, \<open>stun\<close>
  and \<open>die\<close> calls, health is within \<open>[0, maxHealth]\<close> after every call (every prefix
  of the sequence) and whenever the death and the state-change callbacks run; when the
  damage callbacks run it is at most maxHealth. This holds of an entity of the base class
  (a Grunt overrides \<open>update\<close> alone, with steps of the base kind), of a soldier, whose
  \<open>takeDamage\<close> and \<open>update\<close> are its own and whose constructor sets a health of 120, and of
  a boss, whose \<open>takeDamage\<close>, \<open>update\<close> and \<open>die\<close> are its own and whose health at
  construction is the budget of its first phase (the Trainer overrides none of the four).
\<close>

theorem C1_health_in_range_after_each_call:
  "(0 < cfg_health config \<and> list_all nonNegativeDamage ops \<longrightarrow>
      (\<forall>n. healthInRange (runOps (take n ops) (AICharacter_new config))
         \<and> list_all seenAtMostMax (trace (runOps (take n ops) (AICharacter_new config)))))
   \<and> (list_all nonNegativeSoldierDamage sops \<longrightarrow>
      (\<forall>n. healthInRange (runSoldierOps (take n sops) (Soldier_new pos spots))
         \<and> list_all seenAtMostMax (trace (runSoldierOps (take n sops) (Soldier_new pos spots)))))
   \<and> (BossBase_new bconfig = Some b \<and> 0 < phaseHealth (hd (cfg_phases bconfig))
        \<and> list_all nonNegativeBossDamage bops \<longrightarrow>
      (\<forall>n. healthInRange (runBossOps (take n bops) b)
         \<and> list_all seenAtMostMax (trace (runBossOps (take n bops) b))))"
proof (intro conjI impI allI)
  fix n
  assume a: "0 < cfg_health config \<and> list_all nonNegativeDamage ops"
  have init: "list_all seenAtMostMax (trace (AICharacter_new config))"
    "healthInRange (AICharacter_new config)"
    using a by (simp_all add: AICharacter_new_def healthInRange_def)
  have "\<forall>op \<in> set (take n ops). nonNegativeDamage op"
    using a list_all_take [of nonNegativeDamage ops n] by (simp add: list_all_iff)
  then have r: "inRange (runOps (take n ops) (AICharacter_new config))"
    using runOps_keeps_range [OF init] by blast
  show "healthInRange (runOps (take n ops) (AICharacter_new config))" using r ..
  show "list_all seenAtMostMax (trace (runOps (take n ops) (AICharacter_new config)))"
    using r ..
next
  fix n
  assume a: "list_all nonNegativeSoldierDamage sops"
  have init: "inRange (Soldier_new pos spots)"
    by (simp add: healthInRange_def Soldier_new_fields)
  have r: "inRange (runSoldierOps (take n sops) (Soldier_new pos spots))"
    using runSoldierOps_keeps_range [OF init list_all_take [OF a]] .
  show "healthInRange (runSoldierOps (take n sops) (Soldier_new pos spots))" using r ..
  show "list_all seenAtMostMax (trace (runSoldierOps (take n sops) (Soldier_new pos spots)))"
    using r ..
next
  fix n
  assume a: "BossBase_new bconfig = Some b \<and> 0 < phaseHealth (hd (cfg_phases bconfig))
        \<and> list_all nonNegativeBossDamage bops"
  have init: "inRange b"
    using BossBase_new_in_range [of bconfig b] a by simp
  have nn: "list_all nonNegativeBossDamage (take n bops)"
    using a list_all_take [of nonNegativeBossDamage bops n] by simp
  have r: "inRange (runBossOps (take n bops) b)"
    using runBossOps_keeps_range [OF init nn] .
  show "healthInRange (runBossOps (take n bops) b)" using r ..
  show "list_all seenAtMostMax (trace (runBossOps (take n bops) b))" using r ..
qed

theorem C1_witness:
  "0 < cfg_health scenarioConfig
   \<and> list_all nonNegativeDamage [OpTakeDamage 30, OpStun 2, OpUpdate 1 [], OpTakeDamage 150, OpDie]
   \<and> health (runOps (take 1 [OpTakeDamage 30, OpStun 2, OpUpdate 1 [], OpTakeDamage 150, OpDie])
        (AICharacter_new scenarioConfig)) = 85
   \<and> healthInRange (runOps (take 4 [OpTakeDamage 30, OpStun 2, OpUpdate 1 [], OpTakeDamage 150, OpDie])
        (AICharacter_new scenarioConfig))
   \<and> list_all seenAtMostMax
        (trace (runOps (take 5 [OpTakeDamage 30, OpStun 2, OpUpdate 1 [], OpTakeDamage 150, OpDie])
           (AICharacter_new scenarioConfig)))
   \<and> list_all nonNegativeSoldierDamage
        [SoldierTakeDamage (\<lambda>i. 0) 100, SoldierStun 2, SoldierUpdate 1 [],
         SoldierTakeDamage (\<lambda>i. 0) 1000, SoldierTakeDamage (\<lambda>i. 0) 0]
   \<and> health (runSoldierOps (take 1
        [SoldierTakeDamage (\<lambda>i. 0) 100, SoldierStun 2, SoldierUpdate 1 [],
         SoldierTakeDamage (\<lambda>i. 0) 1000, SoldierTakeDamage (\<lambda>i. 0) 0])
        (Soldier_new (Some (0, 0, 0)) (Some []))) = 50
   \<and> healthInRange (runSoldierOps (take 4
        [SoldierTakeDamage (\<lambda>i. 0) 100, SoldierStun 2, SoldierUpdate 1 [],
         SoldierTakeDamage (\<lambda>i. 0) 1000, SoldierTakeDamage (\<lambda>i. 0) 0])
        (Soldier_new (Some (0, 0, 0)) (Some [])))
   \<and> list_all seenAtMostMax (trace (runSoldierOps (take 5
        [SoldierTakeDamage (\<lambda>i. 0) 100, SoldierStun 2, SoldierUpdate 1 [],
         SoldierTakeDamage (\<lambda>i. 0) 1000, SoldierTakeDamage (\<lambda>i. 0) 0])
        (Soldier_new (Some (0, 0, 0)) (Some []))))
   \<and> Trainer_new \<noteq> None
   \<and> 0 < phaseHealth (hd (cfg_phases TRAINER_CONFIG))
   \<and> list_all nonNegativeBossDamage
        [BossTakeDamage 300, BossStun 1, BossUpdate 1 [] [], BossTakeDamage 1000]
   \<and> map_option (\<lambda>t. health (runBossOps (take 1
        [BossTakeDamage 300, BossStun 1, BossUpdate 1 [] [], BossTakeDamage 1000]) t))
        Trainer_new = Some 250
   \<and> map_option (\<lambda>t. healthInRange (runBossOps (take 4
        [BossTakeDamage 300, BossStun 1, BossUpdate 1 [] [], BossTakeDamage 1000]) t))
        Trainer_new = Some True
   \<and> map_option (\<lambda>t. list_all seenAtMostMax (trace (runBossOps (take 4
        [BossTakeDamage 300, BossStun 1, BossUpdate 1 [] [], BossTakeDamage 1000]) t)))
        Trainer_new = Some True"
proof -
  let ?ops = "[OpTakeDamage 30, OpStun 2, OpUpdate 1 [], OpTakeDamage 150, OpDie]"
  let ?sops = "[SoldierTakeDamage (\<lambda>i. 0) 100, SoldierStun 2, SoldierUpdate 1 [],
         SoldierTakeDamage (\<lambda>i. 0) 1000, SoldierTakeDamage (\<lambda>i. 0) 0]"
  let ?bops = "[BossTakeDamage 300, BossStun 1, BossUpdate 1 [] [], BossTakeDamage 1000]"
  obtain t where t: "BossBase_new TRAINER_CONFIG = Some t"
    using Trainer_constructed by blast
  have tn: "Trainer_new = Some t" by (simp add: Trainer_new_def t)
  note f = BossBase_new_fields [OF t]
  have pos: "0 < cfg_health scenarioConfig" by (simp add: scenarioConfig_def)
  have nn: "list_all nonNegativeDamage ?ops" by simp
  have snn: "list_all nonNegativeSoldierDamage ?sops" by simp
  have bpos: "0 < phaseHealth (hd (cfg_phases TRAINER_CONFIG))"
    by (simp add: TRAINER_CONFIG_def TRAINER_PHASES_def)
  have bnn: "list_all nonNegativeBossDamage ?bops" by simp
  note c1 = C1_health_in_range_after_each_call
    [of scenarioConfig ?ops ?sops "Some (0, 0, 0)" "Some []" TRAINER_CONFIG t ?bops]
  have base: "\<forall>n. healthInRange (runOps (take n ?ops) (AICharacter_new scenarioConfig))
       \<and> list_all seenAtMostMax (trace (runOps (take n ?ops) (AICharacter_new scenarioConfig)))"
    using c1 [THEN conjunct1] pos nn by simp
  have soldier: "\<forall>n. healthInRange (runSoldierOps (take n ?sops) (Soldier_new (Some (0, 0, 0)) (Some [])))
       \<and> list_all seenAtMostMax
           (trace (runSoldierOps (take n ?sops) (Soldier_new (Some (0, 0, 0)) (Some []))))"
    using c1 [THEN conjunct2, THEN conjunct1] snn by simp
  have boss: "\<forall>n. healthInRange (runBossOps (take n ?bops) t)
       \<and> list_all seenAtMostMax (trace (runBossOps (take n ?bops) t))"
    using c1 [THEN conjunct2, THEN conjunct2] t bpos bnn by simp
  have h: "health (runOps (take 1 ?ops) (AICharacter_new scenarioConfig)) = 85"
    by (simp add: takeDamage_not_soldier scenario_fields absorbed_def)
  have sh: "health (runSoldierOps (take 1 ?sops) (Soldier_new (Some (0, 0, 0)) (Some []))) = 50"
    using freshSoldier_hit_100(1) by (simp add: Soldier_takeDamage_fields freshSoldier_def)
  have th: "health t = 500" and ta: "armor t = 50"
    using f by (simp_all add: TRAINER_CONFIG_def TRAINER_PHASES_def)
  have bh: "health (runBossOps (take 1 ?bops) t) = 250"
    using f(7) by (simp add: boss_takeDamage_health_alive th ta absorbed_def)
  have b4: "healthInRange (runBossOps (take 4 ?bops) t)"
    and b4t: "list_all seenAtMostMax (trace (runBossOps (take 4 ?bops) t))"
    using boss [THEN spec, of 4] by (rule conjunct1, rule conjunct2)
  have s4: "healthInRange (runSoldierOps (take 4 ?sops) (Soldier_new (Some (0, 0, 0)) (Some [])))"
    using soldier [THEN spec, of 4] by (rule conjunct1)
  have s5: "list_all seenAtMostMax
      (trace (runSoldierOps (take 5 ?sops) (Soldier_new (Some (0, 0, 0)) (Some []))))"
    using soldier [THEN spec, of 5] by (rule conjunct2)
  have a4: "healthInRange (runOps (take 4 ?ops) (AICharacter_new scenarioConfig))"
    using base [THEN spec, of 4] by (rule conjunct1)
  have a5: "list_all seenAtMostMax (trace (runOps (take 5 ?ops) (AICharacter_new scenarioConfig)))"
    using base [THEN spec, of 5] by (rule conjunct2)
  have tnn: "Trainer_new \<noteq> None" by (simp add: tn)
  have m1: "map_option (\<lambda>t. health (runBossOps (take 1 ?bops) t)) Trainer_new = Some 250"
    unfolding tn using bh by simp
  have m2: "map_option (\<lambda>t. healthInRange (runBossOps (take 4 ?bops) t)) Trainer_new = Some True"
    unfolding tn using b4 by simp
  have m3: "map_option (\<lambda>t. list_all seenAtMostMax (trace (runBossOps (take 4 ?bops) t)))
      Trainer_new = Some True"
    unfolding tn using b4t by simp
  show ?thesis
    by (intro conjI) (rule pos nn h a4 a5 snn sh s4 s5 tnn bpos bnn m1 m2 m3)+
qed

text \<open>
  A hit of 150 on the fresh 100-health, 20-armor entity: the damage callbacks see health
  -30. A hit of -20 on it: health is 110 with maxHealth 100 when the call returns.
\<close>

theorem C1_counterexample:
  "0 < cfg_health scenarioConfig
   \<and> hd (trace (takeDamage 150 (AICharacter_new scenarioConfig))) =
       OnDamage 150 \<lparr> seen_health = - 30, seen_maxHealth = 100, seen_alive = True,
                       seen_state = IDLE, seen_velocity = (0, 0, 0) \<rparr>
   \<and> \<not> seenInRange (hd (trace (takeDamage 150 (AICharacter_new scenarioConfig))))
   \<and> health (takeDamage (- 20) (AICharacter_new scenarioConfig)) = 110
   \<and> maxHealth (takeDamage (- 20) (AICharacter_new scenarioConfig)) = 100
   \<and> \<not> healthInRange (takeDamage (- 20) (AICharacter_new scenarioConfig))"
proof -
  have pos: "0 < cfg_health scenarioConfig" by (simp add: scenarioConfig_def)
  show ?thesis
    using pos
    by (simp add: takeDamage_not_soldier scenario_fields absorbed_def hitStage_trace die_trace
        setState_trace healthInRange_def vzero_def)
qed

end
